theory Spec2Isabelle
  imports Main "HOL-Library.Sublist"
begin

section \<open>Library management: the transaction engine of \<open>Library_management.py\<close>\<close>

text \<open>
  The development embeds the classes \<open>Book\<close>, \<open>Student\<close> and \<open>Librarian\<close> and the two
  registration handlers of \<open>LibraryGUI\<close>. Conventions of the embedding:
  \<^item> Python strings are \<open>string\<close>. The model of \<open>str.lower\<close> maps \<open>A\<close>..\<open>Z\<close> and the
    model of \<open>\d\<close> matches \<open>0\<close>..\<open>9\<close>, which is what Python does on ASCII text; Python
    also folds and matches characters beyond ASCII, which the model leaves alone. The
    theorem on the searches therefore assumes ASCII text (\<open>is_ascii\<close>).
  \<^item> A calendar date is a record of year, month and day. \<open>datetime.now()\<close> is a
    parameter \<open>now\<close> of the operations that read the clock; its time of day is dropped,
    since every use formats it with \<open>%Y-%m-%d\<close>. An operation that reads the clock twice
    is given one reading.
  \<^item> An exception is the left injection of a sum; a normal return is the right one and
    carries the returned message together with the state afterwards.
  \<^item> The three CSV files are part of the state. A file holds the rows handed to
    \<open>csv.DictWriter\<close>; the \<open>csv\<close> module is taken to write and read back every field
    unchanged, and a write is taken to succeed.
\<close>

subsection \<open>Constants\<close>

definition BASE_PENALTY_RATE :: int where "BASE_PENALTY_RATE = 1"
definition MAX_PENALTY :: int where "MAX_PENALTY = 50"
definition GRACE_PERIOD :: int where "GRACE_PERIOD = 2"

datatype py_error = ValueError | IndexError | OverflowError

subsection \<open>Strings\<close>

definition is_digit :: "char \<Rightarrow> bool" where
  "is_digit c = (48 \<le> (of_char c :: nat) \<and> (of_char c :: nat) \<le> 57)"

definition is_digit19 :: "char \<Rightarrow> bool" where
  "is_digit19 c = (49 \<le> (of_char c :: nat) \<and> (of_char c :: nat) \<le> 57)"

definition digit_val :: "char \<Rightarrow> int" where
  "digit_val c = int (of_char c) - 48"

definition digit_char :: "nat \<Rightarrow> char" where
  "digit_char n = char_of (48 + n)"

text \<open>\<open>str(n)\<close> for a natural number and for an integer.\<close>

function str_nat :: "nat \<Rightarrow> string" where
  "str_nat n = (if n < 10 then [digit_char n] else str_nat (n div 10) @ [digit_char (n mod 10)])"
  by pat_completeness auto
termination
  by (relation "measure id") auto

definition str_int :: "int \<Rightarrow> string" where
  "str_int i = (if i < 0 then CHR ''-'' # str_nat (nat (- i)) else str_nat (nat i))"




text \<open>\<open>needle in hay\<close> on strings: \<open>needle\<close> occurs in \<open>hay\<close> as a contiguous run.\<close>

fun py_in :: "string \<Rightarrow> string \<Rightarrow> bool" where
  "py_in needle [] = (needle = [])"
| "py_in needle (c # cs) = (prefix needle (c # cs) \<or> py_in needle cs)"

text \<open>
  \<open>s.split(sep)\<close>: the pieces of \<open>s\<close> between the occurrences of \<open>sep\<close>, found from
  the left without overlap. \<open>split_aux sep skip acc s\<close> has the piece read so far reversed
  in \<open>acc\<close> and \<open>skip\<close> characters of a separator it has just matched still to pass
  over. Python raises \<open>ValueError\<close> on an empty separator; the source only passes the
  literals \<open>","\<close> and \<open>"Due: "\<close>, and \<open>split\<close> is only used with these.
\<close>

fun split_aux :: "string \<Rightarrow> nat \<Rightarrow> string \<Rightarrow> string \<Rightarrow> string list" where
  "split_aux sep skip acc [] = [rev acc]"
| "split_aux sep (Suc k) acc (c # cs) = split_aux sep k acc cs"
| "split_aux sep 0 acc (c # cs) =
     (if prefix sep (c # cs) then rev acc # split_aux sep (length sep - 1) [] cs
      else split_aux sep 0 (c # acc) cs)"

definition split :: "string \<Rightarrow> string \<Rightarrow> string list" where
  "split sep s = split_aux sep 0 [] s"

text \<open>\<open>sep.join(xs)\<close>.\<close>

fun join :: "string \<Rightarrow> string list \<Rightarrow> string" where
  "join sep [] = []"
| "join sep [x] = x"
| "join sep (x # y # ys) = x @ sep @ join sep (y # ys)"

subsection \<open>Dates: the part of \<open>datetime\<close> the program uses\<close>

record date =
  year :: int
  month :: int
  day :: int

definition is_leap :: "int \<Rightarrow> bool" where
  "is_leap y = (y mod 4 = 0 \<and> (y mod 100 \<noteq> 0 \<or> y mod 400 = 0))"

definition days_before_year :: "int \<Rightarrow> int" where
  "days_before_year y = (y - 1) * 365 + (y - 1) div 4 - (y - 1) div 100 + (y - 1) div 400"

definition DAYS_IN_MONTH :: "int list" where
  "DAYS_IN_MONTH = [-1, 31, 28, 31, 30, 31, 30, 31, 31, 30, 31, 30, 31]"

definition DAYS_BEFORE_MONTH :: "int list" where
  "DAYS_BEFORE_MONTH = [-1, 0, 31, 59, 90, 120, 151, 181, 212, 243, 273, 304, 334]"

definition days_in_month :: "int \<Rightarrow> int \<Rightarrow> int" where
  "days_in_month y m = (if m = 2 \<and> is_leap y then 29 else DAYS_IN_MONTH ! nat m)"

definition days_before_month :: "int \<Rightarrow> int \<Rightarrow> int" where
  "days_before_month y m = DAYS_BEFORE_MONTH ! nat m + (if m > 2 \<and> is_leap y then 1 else 0)"

text \<open>The proleptic Gregorian ordinal of a date; 0001-01-01 is day 1.\<close>

definition ymd2ord :: "date \<Rightarrow> int" where
  "ymd2ord d = days_before_year (year d) + days_before_month (year d) (month d) + day d"

text \<open>The dates a \<open>datetime\<close> can hold: the check of its constructor.\<close>

definition valid_date :: "date \<Rightarrow> bool" where
  "valid_date d =
     (1 \<le> year d \<and> year d \<le> 9999 \<and> 1 \<le> month d \<and> month d \<le> 12 \<and>
      1 \<le> day d \<and> day d \<le> days_in_month (year d) (month d))"

text \<open>
  \<open>datetime.strptime(s, "%Y-%m-%d")\<close>. The format compiles to the regular expression
  \<open>(\d\d\d\d)-(1[0-2]|0[1-9]|[1-9])-(3[01]|[12]\d|0[1-9]|[1-9]| [1-9])\<close>, matched at the
  start of \<open>s\<close>; text left over after the match is a \<open>ValueError\<close>, and so is a
  match that is no date.
\<close>

fun parse_year :: "string \<Rightarrow> (int \<times> string) option" where
  "parse_year (a # b # c # d # r) =
     (if is_digit a \<and> is_digit b \<and> is_digit c \<and> is_digit d
      then Some (1000 * digit_val a + 100 * digit_val b + 10 * digit_val c + digit_val d, r)
      else None)"
| "parse_year _ = None"

fun parse_month :: "string \<Rightarrow> (int \<times> string) option" where
  "parse_month (a # b # r) =
     (if a = CHR ''1'' \<and> (b = CHR ''0'' \<or> b = CHR ''1'' \<or> b = CHR ''2'')
      then Some (10 + digit_val b, r)
      else if a = CHR ''0'' \<and> is_digit19 b then Some (digit_val b, r)
      else if is_digit19 a then Some (digit_val a, b # r)
      else None)"
| "parse_month [a] = (if is_digit19 a then Some (digit_val a, []) else None)"
| "parse_month [] = None"

fun parse_day :: "string \<Rightarrow> (int \<times> string) option" where
  "parse_day (a # b # r) =
     (if a = CHR ''3'' \<and> (b = CHR ''0'' \<or> b = CHR ''1'') then Some (30 + digit_val b, r)
      else if (a = CHR ''1'' \<or> a = CHR ''2'') \<and> is_digit b
        then Some (10 * digit_val a + digit_val b, r)
      else if a = CHR ''0'' \<and> is_digit19 b then Some (digit_val b, r)
      else if is_digit19 a then Some (digit_val a, b # r)
      else if a = CHR '' '' \<and> is_digit19 b then Some (digit_val b, r)
      else None)"
| "parse_day [a] = (if is_digit19 a then Some (digit_val a, []) else None)"
| "parse_day [] = None"

definition expect_dash :: "string \<Rightarrow> string option" where
  "expect_dash s = (case s of c # r \<Rightarrow> if c = CHR ''-'' then Some r else None | [] \<Rightarrow> None)"

definition strptime :: "string \<Rightarrow> py_error + date" where
  "strptime s =
     (case parse_year s of None \<Rightarrow> Inl ValueError | Some (y, r1) \<Rightarrow>
     (case expect_dash r1 of None \<Rightarrow> Inl ValueError | Some r2 \<Rightarrow>
     (case parse_month r2 of None \<Rightarrow> Inl ValueError | Some (m, r3) \<Rightarrow>
     (case expect_dash r3 of None \<Rightarrow> Inl ValueError | Some r4 \<Rightarrow>
     (case parse_day r4 of None \<Rightarrow> Inl ValueError | Some (d, r5) \<Rightarrow>
        if r5 \<noteq> [] then Inl ValueError
        else if valid_date \<lparr>year = y, month = m, day = d\<rparr>
          then Inr \<lparr>year = y, month = m, day = d\<rparr>
        else Inl ValueError)))))"

text \<open>
  \<open>f"{d:%Y-%m-%d}"\<close> and \<open>d.strftime("%Y-%m-%d")\<close>: four digits of year, two of month,
  two of day. (The C library pads the year of a date before the year 1000 in its own
  way; the clock never gives one.)
\<close>

definition pad2 :: "int \<Rightarrow> string" where
  "pad2 n = [digit_char (nat n div 10 mod 10), digit_char (nat n mod 10)]"

definition pad4 :: "int \<Rightarrow> string" where
  "pad4 n = [digit_char (nat n div 1000 mod 10), digit_char (nat n div 100 mod 10),
             digit_char (nat n div 10 mod 10), digit_char (nat n mod 10)]"

definition strftime :: "date \<Rightarrow> string" where
  "strftime d = pad4 (year d) @ ''-'' @ pad2 (month d) @ ''-'' @ pad2 (day d)"

text \<open>
  \<open>d + timedelta(days=n)\<close> for \<open>n \<ge> 0\<close>, one day at a time; \<open>None\<close> is the
  \<open>OverflowError\<close> of a result after 9999-12-31.
\<close>

definition next_day :: "date \<Rightarrow> date option" where
  "next_day d =
     (if day d < days_in_month (year d) (month d) then Some (d\<lparr>day := day d + 1\<rparr>)
      else if month d < 12 then Some (d\<lparr>month := month d + 1, day := 1\<rparr>)
      else if year d < 9999 then Some \<lparr>year = year d + 1, month = 1, day = 1\<rparr>
      else None)"

fun add_days :: "nat \<Rightarrow> date \<Rightarrow> date option" where
  "add_days 0 d = Some d"
| "add_days (Suc n) d = (case next_day d of None \<Rightarrow> None | Some d' \<Rightarrow> add_days n d')"

subsection \<open>\<open>Librarian.calculate_penalty\<close>\<close>

definition calculate_penalty :: "string \<Rightarrow> string \<Rightarrow> py_error + int" where
  "calculate_penalty issue_due_date return_date =
     (case strptime issue_due_date of Inl e \<Rightarrow> Inl e | Inr issue_date \<Rightarrow>
     (case strptime return_date of Inl e \<Rightarrow> Inl e | Inr return_date_obj \<Rightarrow>
       (let overdue_days = (ymd2ord return_date_obj - ymd2ord issue_date) - GRACE_PERIOD
        in if overdue_days \<le> 0 then Inr 0
           else Inr (min (overdue_days * BASE_PENALTY_RATE) MAX_PENALTY))))"

subsection \<open>The records: \<open>Book\<close>, \<open>Student\<close>, a log entry\<close>

record book =
  book_id :: string
  title :: string
  author :: string
  available_copies :: int

record student =
  student_id :: string
  name :: string
  borrowed_books :: "string list"

text \<open>A log entry is the dictionary \<open>update_logs\<close> builds; all four values are strings.\<close>

record log_entry =
  transaction_type :: string
  log_book_id :: string
  log_student_id :: string
  log_date :: string

text \<open>
  The dictionaries of \<open>to_csv\<close>, as tuples in the order of the field names:
  \<open>(book_id, title, author, available_copies)\<close> and
  \<open>(student_id, name, borrowed_books)\<close>.
\<close>

type_synonym book_row = "string \<times> string \<times> string \<times> int"
type_synonym student_row = "string \<times> string \<times> string"

definition Book_init :: "string \<Rightarrow> string \<Rightarrow> string \<Rightarrow> int \<Rightarrow> book" where
  "Book_init bid t a n = \<lparr>book_id = bid, title = t, author = a, available_copies = n\<rparr>"

definition Book_to_csv :: "book \<Rightarrow> book_row" where
  "Book_to_csv b = (book_id b, title b, author b, available_copies b)"

text \<open>\<open>borrowed_books if borrowed_books else []\<close>: \<open>None\<close> and the empty list give \<open>[]\<close>.\<close>

definition Student_init :: "string \<Rightarrow> string \<Rightarrow> string list option \<Rightarrow> student" where
  "Student_init sid n bb =
     \<lparr>student_id = sid, name = n,
      borrowed_books = (case bb of None \<Rightarrow> [] | Some xs \<Rightarrow> if xs \<noteq> [] then xs else [])\<rparr>"

definition Student_to_csv :: "student \<Rightarrow> student_row" where
  "Student_to_csv s = (student_id s, name s, join '','' (borrowed_books s))"

definition can_borrow :: "student \<Rightarrow> bool" where
  "can_borrow s = (length (borrowed_books s) < 3)"

subsection \<open>The state: a \<open>Librarian\<close> and the three files\<close>

text \<open>A file that does not exist is \<open>None\<close>; \<open>load_csv\<close> reads it as no rows.\<close>

record librarian =
  books :: "book list"
  students :: "student list"
  logs :: "log_entry list"
  books_file :: "book_row list option"
  students_file :: "student_row list option"
  logs_file :: "log_entry list option"

definition load_csv :: "'a list option \<Rightarrow> 'a list" where
  "load_csv file = (case file of None \<Rightarrow> [] | Some rows \<Rightarrow> rows)"

text \<open>
  \<open>Librarian.__init__\<close>: the three collections as read from the files. The rows of
  \<open>books.csv\<close> carry the number of copies as the integer that was written.
\<close>

definition Librarian_init :: "librarian \<Rightarrow> librarian" where
  "Librarian_init s =
     s\<lparr>books := map (\<lambda>(bid, t, a, n). Book_init bid t a n) (load_csv (books_file s)),
       students := map (\<lambda>(sid, n, bb). Student_init sid n (Some (split '','' bb)))
                     (load_csv (students_file s)),
       logs := load_csv (logs_file s)\<rparr>"

subsection \<open>\<open>Librarian.search_student\<close> and \<open>Librarian.search_book\<close>\<close>



subsection \<open>\<open>Librarian.update_logs\<close> and \<open>Librarian.save_data\<close>\<close>

definition update_logs :: "librarian \<Rightarrow> string \<Rightarrow> string \<Rightarrow> string \<Rightarrow> date \<Rightarrow> librarian" where
  "update_logs s ttype bid sid now =
     (let s1 = s\<lparr>logs := logs s @
                 [\<lparr>transaction_type = ttype, log_book_id = bid, log_student_id = sid,
                   log_date = strftime now\<rparr>]\<rparr>
      in s1\<lparr>logs_file := Some (logs s1)\<rparr>)"

definition save_data :: "librarian \<Rightarrow> librarian" where
  "save_data s =
     s\<lparr>books_file := Some (map Book_to_csv (books s)),
       students_file := Some (map Student_to_csv (students s))\<rparr>"

subsection \<open>\<open>Librarian.issue_book\<close> and \<open>Librarian.return_book\<close>\<close>

text \<open>
  \<open>next((b for b in self.books if b.book_id == book_id), None)\<close> is \<open>find\<close>: the first
  element with the id. The object found is then changed in place; the lists hold
  distinct objects, so this changes the first element with the id and no other.
\<close>

fun update_first :: "('a \<Rightarrow> bool) \<Rightarrow> ('a \<Rightarrow> 'a) \<Rightarrow> 'a list \<Rightarrow> 'a list" where
  "update_first P f [] = []"
| "update_first P f (x # xs) = (if P x then f x # xs else x # update_first P f xs)"

definition issue_book ::
  "librarian \<Rightarrow> string \<Rightarrow> string \<Rightarrow> date \<Rightarrow> py_error + (string \<times> librarian)" where
  "issue_book s bid sid now =
     (case find (\<lambda>b. book_id b = bid) (books s) of
        None \<Rightarrow> Inr (''Book not found.'', s)
      | Some book \<Rightarrow>
     (case find (\<lambda>st. student_id st = sid) (students s) of
        None \<Rightarrow> Inr (''Student not found.'', s)
      | Some student \<Rightarrow>
        if available_copies book \<le> 0 then Inr (''No copies available.'', s)
        else if \<not> can_borrow student
          then Inr (''Student has reached the borrowing limit.'', s)
        else
          (case add_days 14 now of
             None \<Rightarrow> Inl OverflowError
           | Some due_date \<Rightarrow>
              (let s1 = s\<lparr>books := update_first (\<lambda>b. book_id b = bid)
                             (\<lambda>b. b\<lparr>available_copies := available_copies b - 1\<rparr>) (books s)\<rparr>;
                   s2 = s1\<lparr>students := update_first (\<lambda>st. student_id st = sid)
                             (\<lambda>st. st\<lparr>borrowed_books := borrowed_books st @
                                [bid @ '' (Due: '' @ strftime due_date @ '')'']\<rparr>)
                             (students s1)\<rparr>;
                   s3 = update_logs s2 ''issue'' bid sid now;
                   s4 = save_data s3
               in Inr (''Book issued successfully. Due date: '' @ strftime due_date, s4)))))"

text \<open>
  In \<open>return_book\<close>, \<open>borrowed[0].split("Due: ")[1]\<close> raises \<open>IndexError\<close> when the entry
  has no \<open>"Due: "\<close>, \<open>[:-1]\<close> drops the last character, and \<open>calculate_penalty\<close> raises
  \<open>ValueError\<close> on a string that is no date; all of this is before the first mutation.
\<close>

definition return_book ::
  "librarian \<Rightarrow> string \<Rightarrow> string \<Rightarrow> string \<Rightarrow> date \<Rightarrow> py_error + (string \<times> librarian)" where
  "return_book s bid sid return_date now =
     (case find (\<lambda>b. book_id b = bid) (books s) of
        None \<Rightarrow> Inr (''Book or Student not found.'', s)
      | Some book \<Rightarrow>
     (case find (\<lambda>st. student_id st = sid) (students s) of
        None \<Rightarrow> Inr (''Book or Student not found.'', s)
      | Some student \<Rightarrow>
     (case filter (\<lambda>b. py_in bid b) (borrowed_books student) of
        [] \<Rightarrow> Inr (''This student did not borrow this book.'', s)
      | b0 # _ \<Rightarrow>
     (case split ''Due: '' b0 of
        _ # piece # _ \<Rightarrow>
          (case calculate_penalty (butlast piece) return_date of
             Inl e \<Rightarrow> Inl e
           | Inr penalty \<Rightarrow>
              (let s1 = s\<lparr>students := update_first (\<lambda>st. student_id st = sid)
                             (\<lambda>st. st\<lparr>borrowed_books := remove1 b0 (borrowed_books st)\<rparr>)
                             (students s)\<rparr>;
                   s2 = s1\<lparr>books := update_first (\<lambda>b. book_id b = bid)
                             (\<lambda>b. b\<lparr>available_copies := available_copies b + 1\<rparr>) (books s1)\<rparr>;
                   s3 = update_logs s2 ''return'' bid sid now;
                   s4 = save_data s3
               in Inr (''Book returned successfully. Penalty: $'' @ str_int penalty, s4)))
      | _ \<Rightarrow> Inl IndexError))))"

subsection \<open>Registration: \<open>LibraryGUI.add_book\<close> and \<open>LibraryGUI.add_student\<close>\<close>

text \<open>
  The handlers read four and two text fields. \<open>copies.isdigit()\<close> holds of a non-empty
  string of digits, and \<open>int(copies)\<close> is then its decimal value. A form that fails the
  check changes nothing.
\<close>

definition isdigit :: "string \<Rightarrow> bool" where
  "isdigit s = (s \<noteq> [] \<and> list_all is_digit s)"

definition int_of_digits :: "string \<Rightarrow> int" where
  "int_of_digits s = foldl (\<lambda>a c. 10 * a + digit_val c) 0 s"

definition add_book :: "librarian \<Rightarrow> string \<Rightarrow> string \<Rightarrow> string \<Rightarrow> string \<Rightarrow> librarian" where
  "add_book s bid t a copies =
     (if \<not> (bid \<noteq> [] \<and> t \<noteq> [] \<and> a \<noteq> [] \<and> isdigit copies) then s
      else save_data (s\<lparr>books := books s @ [Book_init bid t a (int_of_digits copies)]\<rparr>))"

definition add_student :: "librarian \<Rightarrow> string \<Rightarrow> string \<Rightarrow> librarian" where
  "add_student s sid n =
     (if \<not> (sid \<noteq> [] \<and> n \<noteq> []) then s
      else save_data (s\<lparr>students := students s @ [Student_init sid n None]\<rparr>))"

subsection \<open>Sequences of operations\<close>

text \<open>
  One call of the engine. An exception leaves the state as it was (each one is raised
  before the first mutation) and the next call goes on from there; a search returns
  rows and has no state to return.
\<close>

datatype op =
    Issue string string date
  | Return string string string date
  | AddBook string string string string
  | AddStudent string string
  | SearchBook string
  | SearchStudent string

definition state_after :: "librarian \<Rightarrow> py_error + (string \<times> librarian) \<Rightarrow> librarian" where
  "state_after s r = (case r of Inl e \<Rightarrow> s | Inr (msg, s') \<Rightarrow> s')"

fun step :: "librarian \<Rightarrow> op \<Rightarrow> librarian" where
  "step s (Issue bid sid now) = state_after s (issue_book s bid sid now)"
| "step s (Return bid sid return_date now) = state_after s (return_book s bid sid return_date now)"
| "step s (AddBook bid t a copies) = add_book s bid t a copies"
| "step s (AddStudent sid n) = add_student s sid n"
| "step s (SearchBook query) = s"
| "step s (SearchStudent query) = s"

definition run :: "librarian \<Rightarrow> op list \<Rightarrow> librarian" where
  "run s ops = foldl step s ops"

text \<open>The state of a first start: no records and no files.\<close>

definition empty_library :: librarian where
  "empty_library =
     \<lparr>books = [], students = [], logs = [],
      books_file = None, students_file = None, logs_file = None\<rparr>"


subsection \<open>The state after a successful call\<close>

text \<open>
  What the four statements after the checks of \<open>issue_book\<close>, and of \<open>return_book\<close>,
  leave behind, field by field; \<open>b0\<close> is the entry that \<open>return_book\<close> removes.
\<close>

definition issued :: "librarian \<Rightarrow> string \<Rightarrow> string \<Rightarrow> date \<Rightarrow> date \<Rightarrow> librarian" where
  "issued s bid sid now due =
     (let bs = update_first (\<lambda>b. book_id b = bid)
                 (\<lambda>b. b\<lparr>available_copies := available_copies b - 1\<rparr>) (books s);
          sts = update_first (\<lambda>st. student_id st = sid)
                 (\<lambda>st. st\<lparr>borrowed_books := borrowed_books st @
                    [bid @ '' (Due: '' @ strftime due @ '')'']\<rparr>) (students s);
          ls = logs s @ [\<lparr>transaction_type = ''issue'', log_book_id = bid,
                  log_student_id = sid, log_date = strftime now\<rparr>]
      in s\<lparr>books := bs, students := sts, logs := ls,
           books_file := Some (map Book_to_csv bs),
           students_file := Some (map Student_to_csv sts),
           logs_file := Some ls\<rparr>)"

definition returned :: "librarian \<Rightarrow> string \<Rightarrow> string \<Rightarrow> string \<Rightarrow> date \<Rightarrow> librarian" where
  "returned s bid sid b0 now =
     (let sts = update_first (\<lambda>st. student_id st = sid)
                 (\<lambda>st. st\<lparr>borrowed_books := remove1 b0 (borrowed_books st)\<rparr>) (students s);
          bs = update_first (\<lambda>b. book_id b = bid)
                 (\<lambda>b. b\<lparr>available_copies := available_copies b + 1\<rparr>) (books s);
          ls = logs s @ [\<lparr>transaction_type = ''return'', log_book_id = bid,
                  log_student_id = sid, log_date = strftime now\<rparr>]
      in s\<lparr>books := bs, students := sts, logs := ls,
           books_file := Some (map Book_to_csv bs),
           students_file := Some (map Student_to_csv sts),
           logs_file := Some ls\<rparr>)"

subsection \<open>Outcomes, invariants and the audit trail\<close>

text \<open>
  A call has succeeded when it returns its success message. (\<open>LibraryGUI\<close> tells the
  outcomes apart by the same messages.)
\<close>

definition issue_ok :: "py_error + (string \<times> librarian) \<Rightarrow> bool" where
  "issue_ok r = (case r of Inl e \<Rightarrow> False
                 | Inr (msg, s') \<Rightarrow> prefix ''Book issued successfully.'' msg)"

definition return_ok :: "py_error + (string \<times> librarian) \<Rightarrow> bool" where
  "return_ok r = (case r of Inl e \<Rightarrow> False
                  | Inr (msg, s') \<Rightarrow> prefix ''Book returned successfully.'' msg)"

text \<open>The two invariants of the data model.\<close>

definition borrow_limit_ok :: "librarian \<Rightarrow> bool" where
  "borrow_limit_ok s = list_all (\<lambda>st. length (borrowed_books st) \<le> 3) (students s)"

definition copies_nonneg :: "librarian \<Rightarrow> bool" where
  "copies_nonneg s = list_all (\<lambda>b. 0 \<le> available_copies b) (books s)"

text \<open>
  The entries a sequence of operations is to leave in the log: one for each issue and
  each return that succeeds, with the type, the two ids and the date of the clock.
\<close>

definition log_of :: "librarian \<Rightarrow> op \<Rightarrow> log_entry list" where
  "log_of s x =
     (case x of
        Issue bid sid now \<Rightarrow>
          if issue_ok (issue_book s bid sid now)
          then [\<lparr>transaction_type = ''issue'', log_book_id = bid, log_student_id = sid,
                 log_date = strftime now\<rparr>]
          else []
      | Return bid sid return_date now \<Rightarrow>
          if return_ok (return_book s bid sid return_date now)
          then [\<lparr>transaction_type = ''return'', log_book_id = bid, log_student_id = sid,
                 log_date = strftime now\<rparr>]
          else []
      | _ \<Rightarrow> [])"

fun trail :: "librarian \<Rightarrow> op list \<Rightarrow> log_entry list" where
  "trail s [] = []"
| "trail s (x # xs) = log_of s x @ trail (step s x) xs"

definition succeeded :: "librarian \<Rightarrow> op \<Rightarrow> bool" where
  "succeeded s x =
     (case x of
        Issue bid sid now \<Rightarrow> issue_ok (issue_book s bid sid now)
      | Return bid sid return_date now \<Rightarrow> return_ok (return_book s bid sid return_date now)
      | _ \<Rightarrow> False)"

fun successes :: "librarian \<Rightarrow> op list \<Rightarrow> nat" where
  "successes s [] = 0"
| "successes s (x # xs) = (if succeeded s x then 1 else 0) + successes (step s x) xs"

subsection \<open>Case-insensitive containment, as the specification words it\<close>






subsection \<open>A small library for the examples\<close>

definition jan1 :: date where
  "jan1 = \<lparr>year = 2024, month = 1, day = 1\<rparr>"

definition demo_library :: librarian where
  "demo_library =
     \<lparr>books =
        [\<lparr>book_id = ''B1'', title = ''Dune'', author = ''Herbert'', available_copies = 1\<rparr>,
         \<lparr>book_id = ''B2'', title = ''Emma'', author = ''Austen'', available_copies = 0\<rparr>],
      students =
        [\<lparr>student_id = ''S1'', name = ''Ann'', borrowed_books = []\<rparr>,
         \<lparr>student_id = ''S2'', name = ''Bob'',
          borrowed_books = [''B2 (Due: 2024-01-10)'', ''B3 (Due: 2024-01-11)'',
                            ''B4 (Due: 2024-01-12)'']\<rparr>],
      logs = [],
      books_file = None, students_file = None, logs_file = None\<rparr>"

text \<open>
  A library with the book ids \<open>B1\<close> and \<open>B10\<close>, after \<open>S1\<close> has borrowed \<open>B10\<close> on
  2024-01-01. No copy of \<open>B1\<close> was ever registered or issued.
\<close>

definition substring_library :: librarian where
  "substring_library =
     \<lparr>books =
        [\<lparr>book_id = ''B1'', title = ''Dune'', author = ''Herbert'', available_copies = 0\<rparr>,
         \<lparr>book_id = ''B10'', title = ''Emma'', author = ''Austen'', available_copies = 0\<rparr>],
      students =
        [\<lparr>student_id = ''S1'', name = ''Ann'', borrowed_books = [''B10 (Due: 2024-01-15)'']\<rparr>],
      logs =
        [\<lparr>transaction_type = ''issue'', log_book_id = ''B10'', log_student_id = ''S1'',
          log_date = ''2024-01-01''\<rparr>],
      books_file =
        Some [(''B1'', ''Dune'', ''Herbert'', 0), (''B10'', ''Emma'', ''Austen'', 0)],
      students_file = Some [(''S1'', ''Ann'', ''B10 (Due: 2024-01-15)'')],
      logs_file =
        Some [\<lparr>transaction_type = ''issue'', log_book_id = ''B10'', log_student_id = ''S1'',
               log_date = ''2024-01-01''\<rparr>]\<rparr>"

section \<open>Dates and their text\<close>

lemma digit_char_simps:
  "digit_char 0 = CHR ''0''" "digit_char (Suc 0) = CHR ''1''" "digit_char 2 = CHR ''2''"
  "digit_char 3 = CHR ''3''"
  by (simp_all add: digit_char_def char_of_eq_iff)

lemma of_char_digit_char: "n < 10 \<Longrightarrow> (of_char (digit_char n) :: nat) = 48 + n"
  by (simp add: digit_char_def)

lemma is_digit_digit_char: "n < 10 \<Longrightarrow> is_digit (digit_char n)"
  by (simp add: is_digit_def of_char_digit_char)

lemma is_digit19_digit_char: "n < 10 \<Longrightarrow> is_digit19 (digit_char n) = (1 \<le> n)"
  by (auto simp add: is_digit19_def of_char_digit_char)

lemma digit_val_digit_char: "n < 10 \<Longrightarrow> digit_val (digit_char n) = int n"
  by (simp add: digit_val_def of_char_digit_char)

lemma digit_char_eq_iff: "n < 10 \<Longrightarrow> (digit_char n = c) = ((of_char c :: nat) = 48 + n)"
  by (auto simp add: digit_char_def char_of_eq_iff take_bit_eq_mod)

lemma decimal4:
  assumes "(n::nat) < 10000"
  shows "1000 * (n div 1000 mod 10) + 100 * (n div 100 mod 10)
          + 10 * (n div 10 mod 10) + n mod 10 = n"
proof -
  have 1: "n div 1000 = n div 10 div 10 div 10" by (simp add: div_mult2_eq)
  have 2: "n div 100 = n div 10 div 10" by (simp add: div_mult2_eq)
  define a0 where "a0 = n div 10"
  define a1 where "a1 = a0 div 10"
  define a2 where "a2 = a1 div 10"
  have "n = 10 * a0 + n mod 10" "a0 = 10 * a1 + a0 mod 10" "a1 = 10 * a2 + a1 mod 10" "a2 < 10"
    using assms by (simp_all add: a0_def a1_def a2_def div_mult2_eq)
  then show ?thesis unfolding 1 2 a0_def[symmetric] a1_def[symmetric] a2_def[symmetric]
    by simp
qed

lemma parse_year_digits:
  assumes "a < 10" "b < 10" "c < 10" "e < 10"
  shows "parse_year (digit_char a # digit_char b # digit_char c # digit_char e # r) =
           Some (int (1000 * a + 100 * b + 10 * c + e), r)"
  using assms by (simp add: is_digit_digit_char digit_val_digit_char)

lemma parse_year_pad4:
  assumes "0 \<le> y" "y \<le> 9999"
  shows "parse_year (pad4 y @ r) = Some (y, r)"
proof -
  define n where "n = nat y"
  have n: "n < 10000" "y = int n" using assms by (simp_all add: n_def)
  have "pad4 y @ r = digit_char (n div 1000 mod 10) # digit_char (n div 100 mod 10) #
          digit_char (n div 10 mod 10) # digit_char (n mod 10) # r"
    by (simp add: pad4_def n_def)
  then have "parse_year (pad4 y @ r) =
      Some (int (1000 * (n div 1000 mod 10) + 100 * (n div 100 mod 10)
          + 10 * (n div 10 mod 10) + n mod 10), r)"
    by (simp only: parse_year_digits[OF mod_less_divisor mod_less_divisor mod_less_divisor
          mod_less_divisor] zero_less_numeral)
  then show ?thesis
    by (simp only: decimal4[OF n(1)] n(2))
qed

lemma pad2_int: "pad2 (int n) = [digit_char (n div 10 mod 10), digit_char (n mod 10)]"
  by (simp add: pad2_def)

lemma pad2_digits:
  assumes "t < 10" "u < 10"
  shows "pad2 (int (10 * t + u)) = [digit_char t, digit_char u]"
  unfolding pad2_int using assms by simp

lemma two_digits:
  assumes "0 \<le> (k::int)" "k \<le> 99"
  obtains t u where "k = int (10 * t + u)" "t < 10" "u < 10"
proof
  show "k = int (10 * (nat k div 10) + nat k mod 10)" using assms by simp
  show "nat k div 10 < 10" using assms by simp
  show "nat k mod 10 < 10" by simp
qed

lemma parse_month_digits:
  assumes "t = 0 \<and> 1 \<le> u \<and> u < 10 \<or> t = 1 \<and> u \<le> 2"
  shows "parse_month (digit_char t # digit_char u # CHR ''-'' # r) =
           Some (int (10 * t + u), CHR ''-'' # r)"
proof -
  have "u < 10" using assms by auto
  then show ?thesis using assms
    by (elim disjE conjE;
        simp add: digit_char_eq_iff is_digit19_def digit_val_def of_char_digit_char; arith)
qed

lemma parse_day_digits:
  assumes "t = 0 \<and> 1 \<le> u \<and> u < 10 \<or> (t = 1 \<or> t = 2) \<and> u < 10 \<or> t = 3 \<and> u \<le> 1"
  shows "parse_day [digit_char t, digit_char u] = Some (int (10 * t + u), [])"
proof -
  have "u < 10" using assms by auto
  then show ?thesis using assms
    by (elim disjE conjE;
        simp add: digit_char_eq_iff is_digit19_def is_digit_def digit_val_def
          of_char_digit_char; arith)
qed

lemma parse_month_pad2:
  assumes "1 \<le> m" "m \<le> 12"
  shows "parse_month (pad2 m @ CHR ''-'' # r) = Some (m, CHR ''-'' # r)"
proof -
  obtain t u where tu: "m = int (10 * t + u)" "t < 10" "u < 10"
    using two_digits[of m] assms by auto
  have c: "t = 0 \<and> 1 \<le> u \<and> u < 10 \<or> t = 1 \<and> u \<le> 2" using assms tu by auto
  show ?thesis
    unfolding tu(1) pad2_digits[OF tu(2,3)] using parse_month_digits[OF c, of r] by simp
qed

lemma parse_day_pad2:
  assumes "1 \<le> d" "d \<le> 31"
  shows "parse_day (pad2 d) = Some (d, [])"
proof -
  obtain t u where tu: "d = int (10 * t + u)" "t < 10" "u < 10"
    using two_digits[of d] assms by auto
  have c: "t = 0 \<and> 1 \<le> u \<and> u < 10 \<or> (t = 1 \<or> t = 2) \<and> u < 10 \<or> t = 3 \<and> u \<le> 1"
    using assms tu by auto
  show ?thesis
    unfolding tu(1) pad2_digits[OF tu(2,3)] using parse_day_digits[OF c] by simp
qed

lemma month_cases:
  "1 \<le> m \<Longrightarrow> m \<le> 12 \<Longrightarrow>
   m = 1 \<or> m = 2 \<or> m = 3 \<or> m = 4 \<or> m = 5 \<or> m = 6 \<or> m = 7 \<or> m = 8 \<or> m = 9 \<or> m = 10 \<or>
   m = 11 \<or> m = (12::int)"
  by arith

lemma days_in_month_le: "1 \<le> m \<Longrightarrow> m \<le> 12 \<Longrightarrow> days_in_month y m \<le> 31"
  using month_cases[of m] by (auto simp add: days_in_month_def DAYS_IN_MONTH_def)

lemma strptime_strftime:
  assumes "valid_date d"
  shows "strptime (strftime d) = Inr d"
proof -
  have y: "0 \<le> year d" "year d \<le> 9999" and m: "1 \<le> month d" "month d \<le> 12"
    and dd: "1 \<le> day d" "day d \<le> days_in_month (year d) (month d)"
    using assms by (simp_all add: valid_date_def)
  have d31: "day d \<le> 31" using dd(2) days_in_month_le[OF m, of "year d"] by linarith
  have v: "valid_date \<lparr>year = year d, month = month d, day = day d\<rparr>"
    using assms by (simp add: valid_date_def)
  show ?thesis
    by (simp add: strptime_def strftime_def parse_year_pad4[OF y] expect_dash_def
          parse_month_pad2[OF m] parse_day_pad2[OF dd(1) d31] v)
qed

lemma div_step:
  assumes "0 < k"
  shows "(y::int) div k = (y - 1) div k + (if y mod k = 0 then 1 else 0)"
proof (cases "y mod k = 0")
  case True
  have "y = k * (y div k)" using mult_div_mod_eq[of k y] True by simp
  then have "y - 1 = k * (y div k - 1) + (k - 1)" by (simp add: algebra_simps)
  then have "(y - 1) div k = y div k - 1"
    by (rule int_div_pos_eq[where r = "k - 1"]) (use assms in auto)
  then show ?thesis using True by simp
next
  case False
  have r: "0 \<le> y mod k" "y mod k < k" using assms by simp_all
  have "y - 1 = k * (y div k) + (y mod k - 1)" by simp
  then have "(y - 1) div k = y div k"
    by (rule int_div_pos_eq[where r = "y mod k - 1"]) (use r False in auto)
  then show ?thesis using False by simp
qed

lemma mod_400_100: "(y::int) mod 400 = 0 \<Longrightarrow> y mod 100 = 0"
proof -
  assume a: "y mod 400 = 0"
  have "y mod 400 mod 100 = y mod 100" by (rule mod_mod_cancel) simp
  then show ?thesis using a by simp
qed

lemma mod_100_4: "(y::int) mod 100 = 0 \<Longrightarrow> y mod 4 = 0"
proof -
  assume a: "y mod 100 = 0"
  have "y mod 100 mod 4 = y mod 4" by (rule mod_mod_cancel) simp
  then show ?thesis using a by simp
qed

lemma days_before_next_year:
  "days_before_year (y + 1) = days_before_year y + 365 + (if is_leap y then 1 else 0)"
proof -
  define q4 where "q4 = (y - 1) div 4"
  define q100 where "q100 = (y - 1) div 100"
  define q400 where "q400 = (y - 1) div 400"
  have a: "y div 4 = q4 + (if y mod 4 = 0 then 1 else 0)"
    unfolding q4_def by (rule div_step) simp
  have b: "y div 100 = q100 + (if y mod 100 = 0 then 1 else 0)"
    unfolding q100_def by (rule div_step) simp
  have c: "y div 400 = q400 + (if y mod 400 = 0 then 1 else 0)"
    unfolding q400_def by (rule div_step) simp
  have l: "days_before_year (y + 1) = y * 365 + y div 4 - y div 100 + y div 400"
    by (simp add: days_before_year_def)
  have r: "days_before_year y = (y - 1) * 365 + q4 - q100 + q400"
    by (simp add: days_before_year_def q4_def q100_def q400_def)
  show ?thesis
    unfolding l r a b c is_leap_def using mod_400_100[of y] mod_100_4[of y]
    by (cases "y mod 4 = 0"; cases "y mod 100 = 0"; cases "y mod 400 = 0") simp_all
qed

lemma calculate_penalty_parsed:
  assumes "strptime s1 = Inr d1" "strptime s2 = Inr d2"
  shows "calculate_penalty s1 s2 =
           Inr (if ymd2ord d2 - ymd2ord d1 - 2 \<le> 0 then 0
                else min (ymd2ord d2 - ymd2ord d1 - 2) 50)"
  using assms
  by (simp add: calculate_penalty_def GRACE_PERIOD_def BASE_PENALTY_RATE_def MAX_PENALTY_def)


lemma days_before_next_month:
  assumes "1 \<le> m" "m < 12"
  shows "days_before_month y (m + 1) = days_before_month y m + days_in_month y m"
proof -
  have "m = 1 \<or> m = 2 \<or> m = 3 \<or> m = 4 \<or> m = 5 \<or> m = 6 \<or> m = 7 \<or> m = 8 \<or> m = 9 \<or> m = 10 \<or>
   m = 11" using assms by arith
  then show ?thesis
    by (elim disjE; simp add: days_before_month_def days_in_month_def DAYS_BEFORE_MONTH_def
          DAYS_IN_MONTH_def)
qed


lemma ymd2ord_next_day:
  assumes "valid_date d" "next_day d = Some d'"
  shows "ymd2ord d' = ymd2ord d + 1 \<and> valid_date d'"
proof -
  have v: "1 \<le> year d" "year d \<le> 9999" "1 \<le> month d" "month d \<le> 12"
      "1 \<le> day d" "day d \<le> days_in_month (year d) (month d)"
    using assms(1) by (simp_all add: valid_date_def)
  consider (a) "day d < days_in_month (year d) (month d)"
    | (b) "day d = days_in_month (year d) (month d)" "month d < 12"
    | (c) "day d = days_in_month (year d) (month d)" "month d = 12" "year d < 9999"
    | (e) "day d = days_in_month (year d) (month d)" "month d = 12" "year d = 9999"
    using v by linarith
  then show ?thesis
  proof cases
    case a
    then have "d' = d\<lparr>day := day d + 1\<rparr>" using assms(2) by (simp add: next_day_def)
    then show ?thesis using a v by (simp add: ymd2ord_def valid_date_def)
  next
    case b
    then have d': "d' = d\<lparr>month := month d + 1, day := 1\<rparr>"
      using assms(2) by (simp add: next_day_def)
    have "1 \<le> days_in_month (year d) (month d + 1)"
      using month_cases[of "month d + 1"] v b
      by (auto simp add: days_in_month_def DAYS_IN_MONTH_def)
    then show ?thesis
      using b v days_before_next_month[OF v(3) b(2), of "year d"]
      by (simp add: d' ymd2ord_def valid_date_def)
  next
    case c
    then have d': "d' = \<lparr>year = year d + 1, month = 1, day = 1\<rparr>"
      using assms(2) by (simp add: next_day_def)
    have "ymd2ord d = days_before_year (year d) + 365 + (if is_leap (year d) then 1 else 0)"
      using c by (simp add: ymd2ord_def days_before_month_def days_in_month_def
        DAYS_BEFORE_MONTH_def DAYS_IN_MONTH_def)
    then show ?thesis
      using c v days_before_next_year[of "year d"]
      by (simp add: d' ymd2ord_def valid_date_def days_before_month_def days_in_month_def
        DAYS_BEFORE_MONTH_def DAYS_IN_MONTH_def)
  next
    case e
    then show ?thesis using assms(2) by (simp add: next_day_def)
  qed
qed


lemma ymd2ord_add_days:
  "valid_date d \<Longrightarrow> add_days n d = Some d' \<Longrightarrow> ymd2ord d' = ymd2ord d + int n \<and> valid_date d'"
proof (induction n arbitrary: d)
  case 0
  then show ?case by simp
next
  case (Suc n)
  then obtain d1 where d1: "next_day d = Some d1" "add_days n d1 = Some d'"
    by (auto split: option.splits)
  from ymd2ord_next_day[OF Suc.prems(1) d1(1)] Suc.IH[OF _ d1(2)]
  show ?case by simp
qed


text \<open>
  Claim C4. For every pair of valid calendar dates, written as \<open>YYYY-MM-DD\<close>,
  \<open>calculate_penalty\<close> returns 0 when the whole days from the due date to the return
  date, less the grace period of 2, are at most 0, and otherwise the smaller of that
  number times 1 and 50; the result is never negative. Due 2024-01-01 gives 0 for a
  return on 2024-01-01, 1 for 2024-01-04 and 50 for 2024-06-01.
\<close>

theorem calculate_penalty_spec:
  assumes "valid_date due" "valid_date ret"
  shows "calculate_penalty (strftime due) (strftime ret) =
           Inr (let overdue_days = (ymd2ord ret - ymd2ord due) - 2
                in if overdue_days \<le> 0 then 0 else min (overdue_days * 1) 50)
         \<and> (\<exists>p. calculate_penalty (strftime due) (strftime ret) = Inr p \<and> 0 \<le> p)
         \<and> calculate_penalty ''2024-01-01'' ''2024-01-01'' = Inr 0
         \<and> calculate_penalty ''2024-01-01'' ''2024-01-04'' = Inr 1
         \<and> calculate_penalty ''2024-01-01'' ''2024-06-01'' = Inr 50"
proof -
  have p: "calculate_penalty (strftime due) (strftime ret) =
           Inr (if ymd2ord ret - ymd2ord due - 2 \<le> 0 then 0
                else min (ymd2ord ret - ymd2ord due - 2) 50)"
    by (rule calculate_penalty_parsed[OF strptime_strftime[OF assms(1)]
          strptime_strftime[OF assms(2)]])
  have e1: "calculate_penalty ''2024-01-01'' ''2024-01-01'' = Inr 0" by code_simp
  have e2: "calculate_penalty ''2024-01-01'' ''2024-01-04'' = Inr 1" by code_simp
  have e3: "calculate_penalty ''2024-01-01'' ''2024-06-01'' = Inr 50" by code_simp
  show ?thesis
    unfolding p using e1 e2 e3 by (simp add: Let_def)
qed


text \<open>The theorem at a loan due 2024-01-15 and returned 2024-01-20: three days are charged.\<close>

theorem calculate_penalty_spec_witness:
  "valid_date \<lparr>year = 2024, month = 1, day = 15\<rparr>
   \<and> valid_date \<lparr>year = 2024, month = 1, day = 20\<rparr>
   \<and> calculate_penalty (strftime \<lparr>year = 2024, month = 1, day = 15\<rparr>)
        (strftime \<lparr>year = 2024, month = 1, day = 20\<rparr>) = Inr 3"
proof -
  have v1: "valid_date \<lparr>year = 2024, month = 1, day = 15\<rparr>" by code_simp
  have v2: "valid_date \<lparr>year = 2024, month = 1, day = 20\<rparr>" by code_simp
  have o1: "ymd2ord \<lparr>year = 2024, month = 1, day = 15\<rparr> = 738900" by code_simp
  have o2: "ymd2ord \<lparr>year = 2024, month = 1, day = 20\<rparr> = 738905" by code_simp
  show ?thesis
    using v1 v2 calculate_penalty_spec[OF v1 v2] by (simp add: o1 o2)
qed


section \<open>The checks of \<open>issue_book\<close>\<close>

lemma update_first_none: "find P xs = None \<Longrightarrow> update_first P f xs = xs"
  by (induction xs) (auto split: if_splits)

lemma length_update_first: "length (update_first P f xs) = length xs"
  by (induction xs) auto

lemma find_update_first:
  assumes "\<And>x. P (f x) = P x"
  shows "find P (update_first P f xs) = map_option f (find P xs)"
  using assms by (induction xs) auto

lemma list_all2_update_first:
  assumes "\<And>x. R x x" "\<And>x. P x \<Longrightarrow> R x (f x)"
  shows "list_all2 R xs (update_first P f xs)"
  using assms by (induction xs) (auto simp add: list_all2_refl)

lemma list_all_update_first:
  assumes "list_all Q xs" "\<And>x. P x \<Longrightarrow> Q x \<Longrightarrow> Q (f x)"
  shows "list_all Q (update_first P f xs)"
  using assms by (induction xs) auto

lemma update_first_twice:
  assumes "\<And>x. P (f x) = P x"
  shows "update_first P g (update_first P f xs) = update_first P (g \<circ> f) xs"
  using assms by (induction xs) auto

lemma update_first_id:
  assumes "\<And>x. P x \<Longrightarrow> f x = x"
  shows "update_first P f xs = xs"
  using assms by (induction xs) auto

text \<open>
  Claim C1. \<open>issue_book\<close> makes its four checks in a fixed order and the first one to
  fail decides the message: no book with the id gives \<open>Book not found.\<close>; otherwise no
  student with the id gives \<open>Student not found.\<close>; otherwise a book (the first with the
  id) whose \<open>available_copies\<close> is not greater than 0 gives \<open>No copies available.\<close>;
  otherwise a student with 3 or more entries in \<open>borrowed_books\<close> gives the message of
  the borrowing limit. Each of these returns with the state, files included, as it was.
\<close>

theorem issue_book_checks:
  "((\<forall>b \<in> set (books s). book_id b \<noteq> bid) \<longrightarrow>
      issue_book s bid sid now = Inr (''Book not found.'', s))
   \<and> (find (\<lambda>b. book_id b = bid) (books s) = Some b
        \<and> (\<forall>st \<in> set (students s). student_id st \<noteq> sid) \<longrightarrow>
      issue_book s bid sid now = Inr (''Student not found.'', s))
   \<and> (find (\<lambda>b. book_id b = bid) (books s) = Some b
        \<and> find (\<lambda>st. student_id st = sid) (students s) = Some st
        \<and> \<not> 0 < available_copies b \<longrightarrow>
      issue_book s bid sid now = Inr (''No copies available.'', s))
   \<and> (find (\<lambda>b. book_id b = bid) (books s) = Some b
        \<and> find (\<lambda>st. student_id st = sid) (students s) = Some st
        \<and> 0 < available_copies b \<and> 3 \<le> length (borrowed_books st) \<longrightarrow>
      issue_book s bid sid now = Inr (''Student has reached the borrowing limit.'', s))"
proof -
  have none_b: "find (\<lambda>b. book_id b = bid) (books s) = None"
    if "\<forall>b \<in> set (books s). book_id b \<noteq> bid"
    using that by (simp add: find_None_iff)
  have none_s: "find (\<lambda>st. student_id st = sid) (students s) = None"
    if "\<forall>st \<in> set (students s). student_id st \<noteq> sid"
    using that by (simp add: find_None_iff)
  show ?thesis
    using none_b none_s by (auto simp add: issue_book_def can_borrow_def)
qed

text \<open>The four failures in the small library, one call for each check.\<close>

theorem issue_book_checks_witness:
  "issue_book demo_library ''B9'' ''S1'' jan1 = Inr (''Book not found.'', demo_library)
   \<and> issue_book demo_library ''B1'' ''S9'' jan1 = Inr (''Student not found.'', demo_library)
   \<and> issue_book demo_library ''B2'' ''S1'' jan1 = Inr (''No copies available.'', demo_library)
   \<and> issue_book demo_library ''B1'' ''S2'' jan1 =
       Inr (''Student has reached the borrowing limit.'', demo_library)"
proof -
  let ?b1 = "\<lparr>book_id = ''B1'', title = ''Dune'', author = ''Herbert'', available_copies = 1\<rparr>"
  let ?b2 = "\<lparr>book_id = ''B2'', title = ''Emma'', author = ''Austen'', available_copies = 0\<rparr>"
  let ?s1 = "\<lparr>student_id = ''S1'', name = ''Ann'', borrowed_books = []\<rparr>"
  let ?s2 = "\<lparr>student_id = ''S2'', name = ''Bob'',
          borrowed_books = [''B2 (Due: 2024-01-10)'', ''B3 (Due: 2024-01-11)'',
                            ''B4 (Due: 2024-01-12)'']\<rparr>"
  have 1: "issue_book demo_library ''B9'' ''S1'' jan1 = Inr (''Book not found.'', demo_library)"
    using issue_book_checks[where s = demo_library and bid = "''B9''" and sid = "''S1''"
        and now = jan1]
    by (simp add: demo_library_def)
  have 2: "issue_book demo_library ''B1'' ''S9'' jan1 = Inr (''Student not found.'', demo_library)"
    using issue_book_checks[where s = demo_library and bid = "''B1''" and sid = "''S9''"
        and now = jan1 and b = ?b1]
    by (simp add: demo_library_def)
  have 3: "issue_book demo_library ''B2'' ''S1'' jan1 = Inr (''No copies available.'', demo_library)"
    using issue_book_checks[where s = demo_library and bid = "''B2''" and sid = "''S1''"
        and now = jan1 and b = ?b2 and st = ?s1]
    by (simp add: demo_library_def)
  have 4: "issue_book demo_library ''B1'' ''S2'' jan1 =
       Inr (''Student has reached the borrowing limit.'', demo_library)"
    using issue_book_checks[where s = demo_library and bid = "''B1''" and sid = "''S2''"
        and now = jan1 and b = ?b1 and st = ?s2]
    by (simp add: demo_library_def)
  show ?thesis using 1 2 3 4 by simp
qed

section \<open>Successful calls\<close>

lemma issue_book_success_eq:
  assumes "find (\<lambda>b. book_id b = bid) (books s) = Some b"
    and "find (\<lambda>st. student_id st = sid) (students s) = Some st"
    and "0 < available_copies b" and "length (borrowed_books st) < 3"
    and "add_days 14 now = Some due"
  shows "issue_book s bid sid now =
           Inr (''Book issued successfully. Due date: '' @ strftime due, issued s bid sid now due)"
  using assms
  by (simp add: issue_book_def can_borrow_def Let_def update_logs_def save_data_def issued_def)

lemma issue_book_ok_inv:
  assumes "issue_book s bid sid now = Inr (msg, s')" "prefix ''Book issued successfully.'' msg"
  shows "\<exists>b st due. find (\<lambda>b. book_id b = bid) (books s) = Some b
          \<and> find (\<lambda>st. student_id st = sid) (students s) = Some st
          \<and> 0 < available_copies b \<and> length (borrowed_books st) < 3
          \<and> add_days 14 now = Some due
          \<and> msg = ''Book issued successfully. Due date: '' @ strftime due
          \<and> s' = issued s bid sid now due"
proof -
  obtain b where b: "find (\<lambda>b. book_id b = bid) (books s) = Some b"
    using assms by (cases "find (\<lambda>b. book_id b = bid) (books s)") (auto simp add: issue_book_def)
  obtain st where st: "find (\<lambda>st. student_id st = sid) (students s) = Some st"
    using assms b
    by (cases "find (\<lambda>st. student_id st = sid) (students s)") (auto simp add: issue_book_def)
  have c: "0 < available_copies b"
    using assms b st by (cases "0 < available_copies b") (auto simp add: issue_book_def)
  have l: "length (borrowed_books st) < 3"
    using assms b st c
    by (cases "length (borrowed_books st) < 3") (auto simp add: issue_book_def can_borrow_def)
  obtain due where due: "add_days 14 now = Some due"
    using assms b st c l
    by (cases "add_days 14 now") (auto simp add: issue_book_def can_borrow_def)
  show ?thesis
    using assms(1) issue_book_success_eq[OF b st c l due] b st c l due by auto
qed

lemma return_book_success_eq:
  assumes "find (\<lambda>b. book_id b = bid) (books s) = Some b"
    and "find (\<lambda>st. student_id st = sid) (students s) = Some st"
    and "filter (\<lambda>e. py_in bid e) (borrowed_books st) = b0 # rest"
    and "split ''Due: '' b0 = p0 # piece # ps"
    and "calculate_penalty (butlast piece) return_date = Inr penalty"
  shows "return_book s bid sid return_date now =
           Inr (''Book returned successfully. Penalty: $'' @ str_int penalty,
                returned s bid sid b0 now)"
  using assms
  by (simp add: return_book_def Let_def update_logs_def save_data_def returned_def)

lemma return_book_ok_inv:
  assumes "return_book s bid sid return_date now = Inr (msg, s')"
    and "prefix ''Book returned successfully.'' msg"
  shows "\<exists>b st b0 rest p0 piece ps penalty.
          find (\<lambda>b. book_id b = bid) (books s) = Some b
          \<and> find (\<lambda>st. student_id st = sid) (students s) = Some st
          \<and> filter (\<lambda>e. py_in bid e) (borrowed_books st) = b0 # rest
          \<and> split ''Due: '' b0 = p0 # piece # ps
          \<and> calculate_penalty (butlast piece) return_date = Inr penalty
          \<and> msg = ''Book returned successfully. Penalty: $'' @ str_int penalty
          \<and> s' = returned s bid sid b0 now"
proof -
  obtain b where b: "find (\<lambda>b. book_id b = bid) (books s) = Some b"
    using assms by (cases "find (\<lambda>b. book_id b = bid) (books s)") (auto simp add: return_book_def)
  obtain st where st: "find (\<lambda>st. student_id st = sid) (students s) = Some st"
    using assms b
    by (cases "find (\<lambda>st. student_id st = sid) (students s)") (auto simp add: return_book_def)
  obtain b0 rest where f: "filter (\<lambda>e. py_in bid e) (borrowed_books st) = b0 # rest"
    using assms b st
    by (cases "filter (\<lambda>e. py_in bid e) (borrowed_books st)") (auto simp add: return_book_def)
  obtain p0 piece ps where sp: "split ''Due: '' b0 = p0 # piece # ps"
    using assms(1) b st f
    by (auto simp add: return_book_def split: list.splits)
  obtain penalty where pen: "calculate_penalty (butlast piece) return_date = Inr penalty"
    using assms(1) b st f sp
    by (cases "calculate_penalty (butlast piece) return_date") (auto simp add: return_book_def)
  show ?thesis
    using assms(1) return_book_success_eq[OF b st f sp pen] b st f sp pen by auto
qed

lemma issued_fields:
  "books (issued s bid sid now due) = update_first (\<lambda>b. book_id b = bid)
      (\<lambda>b. b\<lparr>available_copies := available_copies b - 1\<rparr>) (books s)"
  "students (issued s bid sid now due) = update_first (\<lambda>st. student_id st = sid)
      (\<lambda>st. st\<lparr>borrowed_books := borrowed_books st @
          [bid @ '' (Due: '' @ strftime due @ '')'']\<rparr>) (students s)"
  "logs (issued s bid sid now due) = logs s @ [\<lparr>transaction_type = ''issue'',
      log_book_id = bid, log_student_id = sid, log_date = strftime now\<rparr>]"
  "books_file (issued s bid sid now due) = Some (map Book_to_csv (books (issued s bid sid now due)))"
  "students_file (issued s bid sid now due) =
      Some (map Student_to_csv (students (issued s bid sid now due)))"
  "logs_file (issued s bid sid now due) = Some (logs (issued s bid sid now due))"
  by (simp_all add: issued_def Let_def)

lemma returned_fields:
  "books (returned s bid sid b0 now) = update_first (\<lambda>b. book_id b = bid)
      (\<lambda>b. b\<lparr>available_copies := available_copies b + 1\<rparr>) (books s)"
  "students (returned s bid sid b0 now) = update_first (\<lambda>st. student_id st = sid)
      (\<lambda>st. st\<lparr>borrowed_books := remove1 b0 (borrowed_books st)\<rparr>) (students s)"
  "logs (returned s bid sid b0 now) = logs s @ [\<lparr>transaction_type = ''return'',
      log_book_id = bid, log_student_id = sid, log_date = strftime now\<rparr>]"
  "books_file (returned s bid sid b0 now) = Some (map Book_to_csv (books (returned s bid sid b0 now)))"
  "students_file (returned s bid sid b0 now) =
      Some (map Student_to_csv (students (returned s bid sid b0 now)))"
  "logs_file (returned s bid sid b0 now) = Some (logs (returned s bid sid b0 now))"
  by (simp_all add: returned_def Let_def)

lemma next_day_total:
  assumes "year d < 9999"
  shows "\<exists>d'. next_day d = Some d' \<and> (year d' < 9999 \<or> d' = \<lparr>year = 9999, month = 1, day = 1\<rparr>)"
  using assms by (auto simp add: next_day_def)

lemma add_days_total_aux:
  "valid_date d \<Longrightarrow> n \<le> 30 \<Longrightarrow> year d < 9999 \<or> (month d = 1 \<and> day d + int n \<le> 31)
     \<Longrightarrow> \<exists>d'. add_days n d = Some d'"
proof (induction n arbitrary: d)
  case 0
  then show ?case by simp
next
  case (Suc n)
  show ?case
  proof (cases "year d < 9999")
    case True
    then obtain d1 where d1: "next_day d = Some d1"
        "year d1 < 9999 \<or> d1 = \<lparr>year = 9999, month = 1, day = 1\<rparr>"
      using next_day_total by blast
    have v: "valid_date d1" using ymd2ord_next_day[OF Suc.prems(1) d1(1)] by simp
    have "year d1 < 9999 \<or> (month d1 = 1 \<and> day d1 + int n \<le> 31)"
      using d1(2) Suc.prems(2) by auto
    from Suc.IH[OF v _ this] Suc.prems(2) d1(1) show ?thesis by simp
  next
    case False
    then have m: "month d = 1" "day d + int (Suc n) \<le> 31" using Suc.prems(3) by auto
    have "days_in_month (year d) (month d) = 31"
      using m by (simp add: days_in_month_def DAYS_IN_MONTH_def)
    then have nd: "next_day d = Some (d\<lparr>day := day d + 1\<rparr>)"
      using m by (simp add: next_day_def)
    have v: "valid_date (d\<lparr>day := day d + 1\<rparr>)"
      using ymd2ord_next_day[OF Suc.prems(1) nd] by simp
    have "year (d\<lparr>day := day d + 1\<rparr>) < 9999 \<or>
        (month (d\<lparr>day := day d + 1\<rparr>) = 1 \<and> day (d\<lparr>day := day d + 1\<rparr>) + int n \<le> 31)"
      using m by simp
    from Suc.IH[OF v _ this] Suc.prems(2) nd show ?thesis by simp
  qed
qed

lemma add_days_14_total:
  assumes "valid_date now" "year now < 9999"
  shows "\<exists>due. add_days 14 now = Some due"
  using add_days_total_aux[of now 14] assms by simp

lemma find_map_key:
  "find (\<lambda>row. fst row = k) (map f xs) = map_option f (find (\<lambda>x. fst (f x) = k) xs)"
  by (induction xs) auto

lemma book_of_row: "(\<lambda>(bid, t, a, n). Book_init bid t a n) (Book_to_csv b) = b"
  by (cases b) (simp add: Book_init_def Book_to_csv_def)

lemma books_reloaded:
  "map (\<lambda>(bid, t, a, n). Book_init bid t a n) (map Book_to_csv bs) = bs"
  by (induction bs) (simp_all add: book_of_row)

lemma saved_book_row:
  assumes "find (\<lambda>b. book_id b = bid) bs = Some b"
  shows "find (\<lambda>row. fst row = bid) (map Book_to_csv bs) =
           Some (bid, title b, author b, available_copies b)"
proof -
  have "book_id b = bid" using assms by (auto simp add: find_Some_iff)
  then show ?thesis
    using assms by (simp add: find_map_key) (simp add: Book_to_csv_def)
qed

lemma saved_student_row:
  assumes "find (\<lambda>st. student_id st = sid) sts = Some st"
  shows "find (\<lambda>row. fst row = sid) (map Student_to_csv sts) =
           Some (sid, name st, join '','' (borrowed_books st))"
proof -
  have "student_id st = sid" using assms by (auto simp add: find_Some_iff)
  then show ?thesis
    using assms by (simp add: find_map_key) (simp add: Student_to_csv_def)
qed

text \<open>
  Claim C2. When the four checks of \<open>issue_book\<close> pass (and the clock reads a date
  before the year 9999, so that the date 14 days on exists), the call computes the due
  date 14 days after \<open>now\<close>, takes exactly 1 from the \<open>available_copies\<close> of the book,
  appends the loan entry of the book id and the due date to the \<open>borrowed_books\<close> of the
  student, appends an \<open>issue\<close> entry dated \<open>now\<close> to the log, and returns the message
  that carries the due date. It persists the state: \<open>books.csv\<close> holds one row of id,
  title, author and count for each book afterwards, and its first row for the book id
  has the count less 1; \<open>students.csv\<close> holds one row of id, name and the joined loan
  entries for each student, and its first row for the student id ends with the new
  entry; \<open>logs.csv\<close> holds the old log and the new entry; and a start of the program
  from these files reads the same books and the same log back.
\<close>

theorem issue_book_success:
  assumes "valid_date now" and "year now < 9999"
    and "find (\<lambda>b. book_id b = bid) (books s) = Some b"
    and "find (\<lambda>st. student_id st = sid) (students s) = Some st"
    and "0 < available_copies b" and "length (borrowed_books st) < 3"
  shows "\<exists>due s' book_rows student_rows.
      add_days 14 now = Some due \<and> ymd2ord due = ymd2ord now + 14
      \<and> issue_book s bid sid now =
          Inr (''Book issued successfully. Due date: '' @ strftime due, s')
      \<and> find (\<lambda>b. book_id b = bid) (books s') =
          Some (b\<lparr>available_copies := available_copies b - 1\<rparr>)
      \<and> find (\<lambda>st. student_id st = sid) (students s') =
          Some (st\<lparr>borrowed_books := borrowed_books st @
                  [bid @ '' (Due: '' @ strftime due @ '')'']\<rparr>)
      \<and> logs s' = logs s @ [\<lparr>transaction_type = ''issue'', log_book_id = bid,
                     log_student_id = sid, log_date = strftime now\<rparr>]
      \<and> books_file s' = Some book_rows
      \<and> book_rows = map (\<lambda>b. (book_id b, title b, author b, available_copies b)) (books s')
      \<and> find (\<lambda>row. fst row = bid) book_rows =
          Some (bid, title b, author b, available_copies b - 1)
      \<and> students_file s' = Some student_rows
      \<and> student_rows =
          map (\<lambda>st. (student_id st, name st, join '','' (borrowed_books st))) (students s')
      \<and> find (\<lambda>row. fst row = sid) student_rows =
          Some (sid, name st,
                join '','' (borrowed_books st @ [bid @ '' (Due: '' @ strftime due @ '')'']))
      \<and> logs_file s' =
          Some (logs s @ [\<lparr>transaction_type = ''issue'', log_book_id = bid,
                  log_student_id = sid, log_date = strftime now\<rparr>])
      \<and> books (Librarian_init s') = books s'
      \<and> logs (Librarian_init s') = logs s'"
proof -
  obtain due where due: "add_days 14 now = Some due"
    using add_days_14_total[OF assms(1,2)] by blast
  have ord: "ymd2ord due = ymd2ord now + 14"
    using ymd2ord_add_days[OF assms(1) due] by simp
  let ?s' = "issued s bid sid now due"
  let ?loan = "bid @ '' (Due: '' @ strftime due @ '')''"
  let ?entry = "\<lparr>transaction_type = ''issue'', log_book_id = bid,
                     log_student_id = sid, log_date = strftime now\<rparr>"
  have r: "issue_book s bid sid now =
          Inr (''Book issued successfully. Due date: '' @ strftime due, ?s')"
    by (rule issue_book_success_eq[OF assms(3,4,5,6) due])
  have fb: "find (\<lambda>b. book_id b = bid) (books ?s') =
          Some (b\<lparr>available_copies := available_copies b - 1\<rparr>)"
    by (simp add: issued_fields find_update_first assms(3))
  have fs: "find (\<lambda>st. student_id st = sid) (students ?s') =
          Some (st\<lparr>borrowed_books := borrowed_books st @ [?loan]\<rparr>)"
    by (simp add: issued_fields find_update_first assms(4))
  have lg: "logs ?s' = logs s @ [?entry]"
    by (simp add: issued_fields)
  have bf: "books_file ?s' = Some (map Book_to_csv (books ?s'))"
    by (simp add: issued_fields)
  have br: "map Book_to_csv (books ?s') =
      map (\<lambda>b. (book_id b, title b, author b, available_copies b)) (books ?s')"
    by (simp add: Book_to_csv_def)
  have brow: "find (\<lambda>row. fst row = bid) (map Book_to_csv (books ?s')) =
      Some (bid, title b, author b, available_copies b - 1)"
    using saved_book_row[OF fb] by simp
  have sf: "students_file ?s' = Some (map Student_to_csv (students ?s'))"
    by (simp add: issued_fields)
  have sr: "map Student_to_csv (students ?s') =
      map (\<lambda>st. (student_id st, name st, join '','' (borrowed_books st))) (students ?s')"
    by (simp add: Student_to_csv_def)
  have srow: "find (\<lambda>row. fst row = sid) (map Student_to_csv (students ?s')) =
      Some (sid, name st, join '','' (borrowed_books st @ [?loan]))"
    using saved_student_row[OF fs] by simp
  have lf: "logs_file ?s' = Some (logs s @ [?entry])"
    by (simp add: issued_fields)
  have rb: "books (Librarian_init ?s') = books ?s'"
  proof -
    have "books (Librarian_init ?s') =
        map (\<lambda>(bid, t, a, n). Book_init bid t a n) (load_csv (books_file ?s'))"
      by (simp add: Librarian_init_def)
    also have "\<dots> = map (\<lambda>(bid, t, a, n). Book_init bid t a n) (map Book_to_csv (books ?s'))"
      by (simp only: bf load_csv_def option.case)
    also have "\<dots> = books ?s'"
      by (rule books_reloaded)
    finally show ?thesis .
  qed
  have rl: "logs (Librarian_init ?s') = logs ?s'"
    by (simp add: Librarian_init_def load_csv_def issued_fields)
  show ?thesis
    apply (rule exI[of _ due], rule exI[of _ ?s'])
    apply (rule exI[of _ "map Book_to_csv (books ?s')"])
    apply (rule exI[of _ "map Student_to_csv (students ?s')"])
    using due ord r fb fs lg bf br brow sf sr srow lf rb rl
    apply (intro conjI)
    apply assumption+
    done
qed

section \<open>Invariants over sequences of operations\<close>

lemma issue_book_cases:
  "(\<not> issue_ok (issue_book s bid sid now) \<and> state_after s (issue_book s bid sid now) = s)
   \<or> (\<exists>b st due. find (\<lambda>b. book_id b = bid) (books s) = Some b
          \<and> find (\<lambda>st. student_id st = sid) (students s) = Some st
          \<and> 0 < available_copies b \<and> length (borrowed_books st) < 3
          \<and> add_days 14 now = Some due
          \<and> issue_ok (issue_book s bid sid now)
          \<and> state_after s (issue_book s bid sid now) = issued s bid sid now due)"
proof (cases "issue_ok (issue_book s bid sid now)")
  case True
  then obtain msg s' where r: "issue_book s bid sid now = Inr (msg, s')"
      "prefix ''Book issued successfully.'' msg"
    by (auto simp add: issue_ok_def split: sum.splits)
  from issue_book_ok_inv[OF r] True r(1) show ?thesis
    by (auto simp add: state_after_def)
next
  case False
  then have "state_after s (issue_book s bid sid now) = s"
    by (auto simp add: issue_book_def state_after_def issue_ok_def Let_def
          split: option.splits if_splits)
  then show ?thesis using False by simp
qed

lemma return_book_cases:
  "(\<not> return_ok (return_book s bid sid rd now) \<and> state_after s (return_book s bid sid rd now) = s)
   \<or> (\<exists>b st b0 rest. find (\<lambda>b. book_id b = bid) (books s) = Some b
          \<and> find (\<lambda>st. student_id st = sid) (students s) = Some st
          \<and> filter (\<lambda>e. py_in bid e) (borrowed_books st) = b0 # rest
          \<and> return_ok (return_book s bid sid rd now)
          \<and> state_after s (return_book s bid sid rd now) = returned s bid sid b0 now)"
proof (cases "return_ok (return_book s bid sid rd now)")
  case True
  then obtain msg s' where r: "return_book s bid sid rd now = Inr (msg, s')"
      "prefix ''Book returned successfully.'' msg"
    by (auto simp add: return_ok_def split: sum.splits)
  from return_book_ok_inv[OF r] True r(1) show ?thesis
    by (auto simp add: state_after_def)
next
  case False
  then have "state_after s (return_book s bid sid rd now) = s"
    by (auto simp add: return_book_def state_after_def return_ok_def Let_def
          split: option.splits if_splits list.splits sum.splits)
  then show ?thesis using False by simp
qed

lemma list_all_update_found:
  assumes "list_all Q xs" "find P xs = Some y" "Q (f y)"
  shows "list_all Q (update_first P f xs)"
  using assms by (induction xs) (auto split: if_splits)

lemma save_data_fields:
  "books (save_data s) = books s" "students (save_data s) = students s"
  "logs (save_data s) = logs s"
  by (simp_all add: save_data_def)

lemma int_of_digits_nonneg_aux:
  "list_all is_digit cs \<Longrightarrow> 0 \<le> a \<Longrightarrow> 0 \<le> foldl (\<lambda>a c. 10 * a + digit_val c) a cs"
proof (induction cs arbitrary: a)
  case Nil
  then show ?case by simp
next
  case (Cons c cs)
  then have "0 \<le> 10 * a + digit_val c" by (simp add: is_digit_def digit_val_def)
  with Cons show ?case by simp
qed

lemma int_of_digits_nonneg: "isdigit cs \<Longrightarrow> 0 \<le> int_of_digits cs"
  by (simp add: isdigit_def int_of_digits_def int_of_digits_nonneg_aux)

lemma step_borrow_limit: "borrow_limit_ok s \<Longrightarrow> borrow_limit_ok (step s x)"
proof (cases x)
  case (Issue bid sid now)
  assume inv: "borrow_limit_ok s"
  from issue_book_cases[of s bid sid now] show ?thesis
  proof (elim disjE exE conjE)
    assume "state_after s (issue_book s bid sid now) = s"
    then show ?thesis using inv Issue by simp
  next
    fix b st due
    assume a: "find (\<lambda>st. student_id st = sid) (students s) = Some st"
       "length (borrowed_books st) < 3"
       "state_after s (issue_book s bid sid now) = issued s bid sid now due"
    have "list_all (\<lambda>st. length (borrowed_books st) \<le> 3) (students (issued s bid sid now due))"
      unfolding issued_fields
      by (rule list_all_update_found[OF _ a(1)]) (use inv a(2) in \<open>simp_all add: borrow_limit_ok_def\<close>)
    then show ?thesis using Issue a(3) by (simp add: borrow_limit_ok_def)
  qed
next
  case (Return bid sid rd now)
  assume inv: "borrow_limit_ok s"
  from return_book_cases[of s bid sid rd now] show ?thesis
  proof (elim disjE exE conjE)
    assume "state_after s (return_book s bid sid rd now) = s"
    then show ?thesis using inv Return by simp
  next
    fix b st b0 rest
    assume a: "find (\<lambda>st. student_id st = sid) (students s) = Some st"
       "state_after s (return_book s bid sid rd now) = returned s bid sid b0 now"
    have "st \<in> set (students s)" using a(1) by (auto simp add: find_Some_iff)
    then have "length (borrowed_books st) \<le> 3"
      using inv by (simp add: borrow_limit_ok_def list_all_iff)
    moreover have "length (remove1 b0 (borrowed_books st)) \<le> length (borrowed_books st)"
      by (simp add: length_remove1)
    ultimately have "list_all (\<lambda>st. length (borrowed_books st) \<le> 3)
        (students (returned s bid sid b0 now))"
      unfolding returned_fields
      by (intro list_all_update_found[OF _ a(1)]) (use inv in \<open>simp_all add: borrow_limit_ok_def\<close>)
    then show ?thesis using Return a(2) by (simp add: borrow_limit_ok_def)
  qed
next
  case (AddBook bid t a copies)
  assume "borrow_limit_ok s"
  then show ?thesis using AddBook
    by (simp add: add_book_def borrow_limit_ok_def save_data_fields)
next
  case (AddStudent sid n)
  assume "borrow_limit_ok s"
  then show ?thesis using AddStudent
    by (simp add: add_student_def borrow_limit_ok_def save_data_fields Student_init_def)
next
  case (SearchBook q)
  assume "borrow_limit_ok s"
  then show ?thesis using SearchBook by simp
next
  case (SearchStudent q)
  assume "borrow_limit_ok s"
  then show ?thesis using SearchStudent by simp
qed

lemma run_borrow_limit: "borrow_limit_ok s \<Longrightarrow> borrow_limit_ok (run s ops)"
  unfolding run_def by (induction ops arbitrary: s) (simp_all add: step_borrow_limit)

lemma step_copies_nonneg: "copies_nonneg s \<Longrightarrow> copies_nonneg (step s x)"
proof (cases x)
  case (Issue bid sid now)
  assume inv: "copies_nonneg s"
  from issue_book_cases[of s bid sid now] show ?thesis
  proof (elim disjE exE conjE)
    assume "state_after s (issue_book s bid sid now) = s"
    then show ?thesis using inv Issue by simp
  next
    fix b st due
    assume a: "find (\<lambda>b. book_id b = bid) (books s) = Some b" "0 < available_copies b"
       "state_after s (issue_book s bid sid now) = issued s bid sid now due"
    have "list_all (\<lambda>b. 0 \<le> available_copies b) (books (issued s bid sid now due))"
      unfolding issued_fields
      by (rule list_all_update_found[OF _ a(1)]) (use inv a(2) in \<open>simp_all add: copies_nonneg_def\<close>)
    then show ?thesis using Issue a(3) by (simp add: copies_nonneg_def)
  qed
next
  case (Return bid sid rd now)
  assume inv: "copies_nonneg s"
  from return_book_cases[of s bid sid rd now] show ?thesis
  proof (elim disjE exE conjE)
    assume "state_after s (return_book s bid sid rd now) = s"
    then show ?thesis using inv Return by simp
  next
    fix b st b0 rest
    assume a: "find (\<lambda>b. book_id b = bid) (books s) = Some b"
       "state_after s (return_book s bid sid rd now) = returned s bid sid b0 now"
    have "b \<in> set (books s)" using a(1) by (auto simp add: find_Some_iff)
    then have "0 \<le> available_copies b"
      using inv by (simp add: copies_nonneg_def list_all_iff)
    then have "list_all (\<lambda>b. 0 \<le> available_copies b) (books (returned s bid sid b0 now))"
      unfolding returned_fields
      by (intro list_all_update_found[OF _ a(1)]) (use inv in \<open>simp_all add: copies_nonneg_def\<close>)
    then show ?thesis using Return a(2) by (simp add: copies_nonneg_def)
  qed
next
  case (AddBook bid t a copies)
  assume "copies_nonneg s"
  then show ?thesis using AddBook
    by (simp add: add_book_def copies_nonneg_def save_data_fields Book_init_def
          int_of_digits_nonneg)
next
  case (AddStudent sid n)
  assume "copies_nonneg s"
  then show ?thesis using AddStudent
    by (simp add: add_student_def copies_nonneg_def save_data_fields)
next
  case (SearchBook q)
  assume "copies_nonneg s"
  then show ?thesis using SearchBook by simp
next
  case (SearchStudent q)
  assume "copies_nonneg s"
  then show ?thesis using SearchStudent by simp
qed

lemma run_copies_nonneg: "copies_nonneg s \<Longrightarrow> copies_nonneg (run s ops)"
  unfolding run_def by (induction ops arbitrary: s) (simp_all add: step_copies_nonneg)

lemma issue_ok_books:
  assumes "issue_ok (issue_book s bid sid now)"
  shows "books (state_after s (issue_book s bid sid now)) =
      update_first (\<lambda>b. book_id b = bid)
        (\<lambda>b. b\<lparr>available_copies := available_copies b - 1\<rparr>) (books s)
    \<and> logs (state_after s (issue_book s bid sid now)) = logs s @ [\<lparr>transaction_type = ''issue'',
        log_book_id = bid, log_student_id = sid, log_date = strftime now\<rparr>]
    \<and> (\<exists>b. find (\<lambda>b. book_id b = bid) (books s) = Some b)"
  using issue_book_cases[of s bid sid now] assms
  by (auto simp add: issued_fields)

lemma return_ok_books:
  assumes "return_ok (return_book s bid sid rd now)"
  shows "books (state_after s (return_book s bid sid rd now)) =
      update_first (\<lambda>b. book_id b = bid)
        (\<lambda>b. b\<lparr>available_copies := available_copies b + 1\<rparr>) (books s)
    \<and> logs (state_after s (return_book s bid sid rd now)) = logs s @ [\<lparr>transaction_type = ''return'',
        log_book_id = bid, log_student_id = sid, log_date = strftime now\<rparr>]
    \<and> (\<exists>b. find (\<lambda>b. book_id b = bid) (books s) = Some b)"
  using return_book_cases[of s bid sid rd now] assms
  by (auto simp add: returned_fields)

lemma copies_nonneg_empty: "copies_nonneg empty_library"
  by (simp add: copies_nonneg_def empty_library_def)

lemma borrow_limit_empty: "borrow_limit_ok empty_library"
  by (simp add: borrow_limit_ok_def empty_library_def)

text \<open>
  Claim C5. No sequence of operations makes an \<open>available_copies\<close> negative, from a
  state where none is, and so from the empty library; a successful issue takes exactly
  1 from the count of the book, a successful return adds exactly 1 to it, and a
  successful issue followed by the successful return of the same book by the same
  student leaves every book as it was before the issue.
\<close>

theorem copies_round_trip:
  "(copies_nonneg s \<longrightarrow> copies_nonneg (run s ops))
   \<and> copies_nonneg (run empty_library ops)
   \<and> (issue_ok (issue_book s bid sid now) \<longrightarrow>
        (\<exists>b. find (\<lambda>b. book_id b = bid) (books s) = Some b
           \<and> find (\<lambda>b. book_id b = bid) (books (state_after s (issue_book s bid sid now))) =
               Some (b\<lparr>available_copies := available_copies b - 1\<rparr>)))
   \<and> (return_ok (return_book s bid sid rd now) \<longrightarrow>
        (\<exists>b. find (\<lambda>b. book_id b = bid) (books s) = Some b
           \<and> find (\<lambda>b. book_id b = bid) (books (state_after s (return_book s bid sid rd now))) =
               Some (b\<lparr>available_copies := available_copies b + 1\<rparr>)))
   \<and> (issue_ok (issue_book s bid sid now)
        \<and> return_ok (return_book (state_after s (issue_book s bid sid now)) bid sid rd now') \<longrightarrow>
        books (state_after (state_after s (issue_book s bid sid now))
                 (return_book (state_after s (issue_book s bid sid now)) bid sid rd now')) =
        books s)"
proof -
  have 1: "copies_nonneg s \<longrightarrow> copies_nonneg (run s ops)"
    by (simp add: run_copies_nonneg)
  have 2: "copies_nonneg (run empty_library ops)"
    by (rule run_copies_nonneg[OF copies_nonneg_empty])
  have 3: "issue_ok (issue_book s bid sid now) \<longrightarrow>
        (\<exists>b. find (\<lambda>b. book_id b = bid) (books s) = Some b
           \<and> find (\<lambda>b. book_id b = bid) (books (state_after s (issue_book s bid sid now))) =
               Some (b\<lparr>available_copies := available_copies b - 1\<rparr>))"
    using issue_ok_books[of s bid sid now] by (auto simp add: find_update_first)
  have 4: "return_ok (return_book s bid sid rd now) \<longrightarrow>
        (\<exists>b. find (\<lambda>b. book_id b = bid) (books s) = Some b
           \<and> find (\<lambda>b. book_id b = bid) (books (state_after s (return_book s bid sid rd now))) =
               Some (b\<lparr>available_copies := available_copies b + 1\<rparr>))"
    using return_ok_books[of s bid sid rd now] by (auto simp add: find_update_first)
  have 5: "issue_ok (issue_book s bid sid now)
        \<and> return_ok (return_book (state_after s (issue_book s bid sid now)) bid sid rd now') \<longrightarrow>
        books (state_after (state_after s (issue_book s bid sid now))
                 (return_book (state_after s (issue_book s bid sid now)) bid sid rd now')) =
        books s"
  proof (intro impI, elim conjE)
    let ?s1 = "state_after s (issue_book s bid sid now)"
    assume a: "issue_ok (issue_book s bid sid now)" "return_ok (return_book ?s1 bid sid rd now')"
    have "books (state_after ?s1 (return_book ?s1 bid sid rd now')) =
        update_first (\<lambda>b. book_id b = bid)
          (\<lambda>b. b\<lparr>available_copies := available_copies b + 1\<rparr>)
          (update_first (\<lambda>b. book_id b = bid)
            (\<lambda>b. b\<lparr>available_copies := available_copies b - 1\<rparr>) (books s))"
      using issue_ok_books[OF a(1)] return_ok_books[OF a(2)] by simp
    also have "\<dots> = books s"
      by (simp add: update_first_twice update_first_id)
    finally show "books (state_after ?s1 (return_book ?s1 bid sid rd now')) = books s" .
  qed
  show ?thesis using 1 2 3 4 5 by blast
qed

section \<open>Frame and audit log\<close>

text \<open>
  Claim C10. A successful \<open>issue_book\<close> or \<open>return_book\<close> for \<open>bid\<close> and \<open>sid\<close>
  keeps the books and the students in place: every book keeps its id, title and author
  and every student keeps id and name, a book with another id than \<open>bid\<close> is unchanged
  altogether, and so is a student with another id than \<open>sid\<close>.
\<close>

theorem issue_return_frame:
  assumes "s' = state_after s (issue_book s bid sid now) \<and> issue_ok (issue_book s bid sid now)
         \<or> s' = state_after s (return_book s bid sid rd now)
             \<and> return_ok (return_book s bid sid rd now)"
  shows "list_all2 (\<lambda>b b'. book_id b' = book_id b \<and> title b' = title b \<and> author b' = author b
                     \<and> (book_id b \<noteq> bid \<longrightarrow> b' = b)) (books s) (books s')
       \<and> list_all2 (\<lambda>st st'. student_id st' = student_id st \<and> name st' = name st
                     \<and> (student_id st \<noteq> sid \<longrightarrow> st' = st)) (students s) (students s')"
  using assms
proof (elim disjE conjE)
  assume a: "s' = state_after s (issue_book s bid sid now)" "issue_ok (issue_book s bid sid now)"
  then obtain due where "s' = issued s bid sid now due"
    using issue_book_cases[of s bid sid now] by auto
  then show ?thesis
    by (simp add: issued_fields list_all2_update_first)
next
  assume a: "s' = state_after s (return_book s bid sid rd now)"
    "return_ok (return_book s bid sid rd now)"
  then obtain b0 where "s' = returned s bid sid b0 now"
    using return_book_cases[of s bid sid rd now] by auto
  then show ?thesis
    by (simp add: returned_fields list_all2_update_first)
qed

lemma step_logs: "logs (step s x) = logs s @ log_of s x"
proof (cases x)
  case (Issue bid sid now)
  then show ?thesis
    using issue_book_cases[of s bid sid now] issue_ok_books[of s bid sid now]
    by (auto simp add: log_of_def)
next
  case (Return bid sid rd now)
  then show ?thesis
    using return_book_cases[of s bid sid rd now] return_ok_books[of s bid sid rd now]
    by (auto simp add: log_of_def)
next
  case (AddBook bid t a copies)
  then show ?thesis by (simp add: log_of_def add_book_def save_data_fields)
next
  case (AddStudent sid n)
  then show ?thesis by (simp add: log_of_def add_student_def save_data_fields)
next
  case (SearchBook q)
  then show ?thesis by (simp add: log_of_def)
next
  case (SearchStudent q)
  then show ?thesis by (simp add: log_of_def)
qed

lemma run_logs: "logs (run s ops) = logs s @ trail s ops"
  unfolding run_def by (induction ops arbitrary: s) (simp_all add: step_logs)

lemma length_log_of: "length (log_of s x) = (if succeeded s x then 1 else 0)"
  by (cases x) (simp_all add: log_of_def succeeded_def)

lemma length_trail: "length (trail s ops) = successes s ops"
  by (induction ops arbitrary: s) (simp_all add: length_log_of)

text \<open>
  Claim C7, amended. Every successful issue appends exactly one entry of type \<open>issue\<close>
  and every successful return exactly one of type \<open>return\<close>, with the book id and the
  student id of the call and the date of the clock at the call (for a return too: the
  \<open>return_date\<close> of the caller is not what is logged). After any sequence of operations
  the log is the log before followed by one entry for each successful issue or return,
  so older entries are neither changed nor removed and the count grows by the number of
  successes.
\<close>

theorem audit_log_append_only:
  "logs (run s ops) = logs s @ trail s ops
   \<and> length (logs (run s ops)) = length (logs s) + successes s ops
   \<and> (issue_ok (issue_book s bid sid now) \<longrightarrow>
        logs (state_after s (issue_book s bid sid now)) =
          logs s @ [\<lparr>transaction_type = ''issue'', log_book_id = bid, log_student_id = sid,
                     log_date = strftime now\<rparr>])
   \<and> (return_ok (return_book s bid sid rd now) \<longrightarrow>
        logs (state_after s (return_book s bid sid rd now)) =
          logs s @ [\<lparr>transaction_type = ''return'', log_book_id = bid, log_student_id = sid,
                     log_date = strftime now\<rparr>])"
  using issue_ok_books[of s bid sid now] return_ok_books[of s bid sid rd now]
  by (simp add: run_logs length_trail)

text \<open>
  Claim C3. No sequence of operations gives a student more than 3 entries in
  \<open>borrowed_books\<close>, from a state where no student has more, and so from the empty
  library. An \<open>issue_book\<close> for a student who holds 3 entries or more returns with the
  state, files included, unchanged; when the book exists and has a copy, so that the
  call reaches the fourth check, what it returns is the message of the borrowing limit.
\<close>

theorem borrow_limit_invariant:
  "(borrow_limit_ok s \<longrightarrow> borrow_limit_ok (run s ops))
   \<and> borrow_limit_ok (run empty_library ops)
   \<and> (find (\<lambda>st. student_id st = sid) (students s) = Some st
        \<and> 3 \<le> length (borrowed_books st) \<longrightarrow>
        (\<exists>msg. issue_book s bid sid now = Inr (msg, s)))
   \<and> (find (\<lambda>b. book_id b = bid) (books s) = Some b \<and> 0 < available_copies b
        \<and> find (\<lambda>st. student_id st = sid) (students s) = Some st
        \<and> 3 \<le> length (borrowed_books st) \<longrightarrow>
        issue_book s bid sid now = Inr (''Student has reached the borrowing limit.'', s))"
proof -
  have 1: "borrow_limit_ok s \<longrightarrow> borrow_limit_ok (run s ops)"
    by (simp add: run_borrow_limit)
  have 2: "borrow_limit_ok (run empty_library ops)"
    by (rule run_borrow_limit[OF borrow_limit_empty])
  have 3: "find (\<lambda>st. student_id st = sid) (students s) = Some st
        \<and> 3 \<le> length (borrowed_books st) \<longrightarrow>
        (\<exists>msg. issue_book s bid sid now = Inr (msg, s))"
    by (auto simp add: issue_book_def can_borrow_def split: option.splits)
  have 4: "find (\<lambda>b. book_id b = bid) (books s) = Some b \<and> 0 < available_copies b
        \<and> find (\<lambda>st. student_id st = sid) (students s) = Some st
        \<and> 3 \<le> length (borrowed_books st) \<longrightarrow>
        issue_book s bid sid now = Inr (''Student has reached the borrowing limit.'', s)"
    by (auto simp add: issue_book_def can_borrow_def)
  show ?thesis using 1 2 3 4 by blast
qed

section \<open>Searching\<close>









section \<open>The theorems in the small library\<close>

lemma demo_B1:
  "find (\<lambda>b. book_id b = ''B1'') (books demo_library) =
     Some \<lparr>book_id = ''B1'', title = ''Dune'', author = ''Herbert'', available_copies = 1\<rparr>"
  by (simp add: demo_library_def)

lemma demo_B2:
  "find (\<lambda>b. book_id b = ''B2'') (books demo_library) =
     Some \<lparr>book_id = ''B2'', title = ''Emma'', author = ''Austen'', available_copies = 0\<rparr>"
  by (simp add: demo_library_def)

lemma demo_S1:
  "find (\<lambda>st. student_id st = ''S1'') (students demo_library) =
     Some \<lparr>student_id = ''S1'', name = ''Ann'', borrowed_books = []\<rparr>"
  by (simp add: demo_library_def)

lemma demo_S2:
  "find (\<lambda>st. student_id st = ''S2'') (students demo_library) =
     Some \<lparr>student_id = ''S2'', name = ''Bob'',
          borrowed_books = [''B2 (Due: 2024-01-10)'', ''B3 (Due: 2024-01-11)'',
                            ''B4 (Due: 2024-01-12)'']\<rparr>"
  by (simp add: demo_library_def)

lemma jan1_valid: "valid_date jan1"
  by code_simp

lemma jan1_due: "add_days 14 jan1 = Some \<lparr>year = 2024, month = 1, day = 15\<rparr>"
  by code_simp

lemma jan15_text: "strftime \<lparr>year = 2024, month = 1, day = 15\<rparr> = ''2024-01-15''"
  by code_simp

lemma jan1_text: "strftime jan1 = ''2024-01-01''"
  by code_simp

lemma demo_issue:
  "issue_book demo_library ''B1'' ''S1'' jan1 =
     Inr (''Book issued successfully. Due date: 2024-01-15'',
          issued demo_library ''B1'' ''S1'' jan1 \<lparr>year = 2024, month = 1, day = 15\<rparr>)"
  using issue_book_success_eq[OF demo_B1 demo_S1 _ _ jan1_due] by (simp add: jan15_text)

lemma demo_issue_ok: "issue_ok (issue_book demo_library ''B1'' ''S1'' jan1)"
  by (simp add: demo_issue issue_ok_def)

lemma split_B2: "split ''Due: '' ''B2 (Due: 2024-01-10)'' = [''B2 ('', ''2024-01-10)'']"
  by code_simp

lemma split_B1: "split ''Due: '' ''B1 (Due: 2024-01-15)'' = [''B1 ('', ''2024-01-15)'']"
  by code_simp

lemma penalty_10_20: "calculate_penalty ''2024-01-10'' ''2024-01-20'' = Inr 8"
  by code_simp

lemma penalty_15_20: "calculate_penalty ''2024-01-15'' ''2024-01-20'' = Inr 3"
  by code_simp

lemma str_int_8: "str_int 8 = ''8''" and str_int_3: "str_int 3 = ''3''"
  by code_simp+

lemma demo_return:
  "return_book demo_library ''B2'' ''S2'' ''2024-01-20'' jan1 =
     Inr (''Book returned successfully. Penalty: $8'',
          returned demo_library ''B2'' ''S2'' ''B2 (Due: 2024-01-10)'' jan1)"
proof -
  have f: "filter (\<lambda>e. py_in ''B2'' e) (borrowed_books \<lparr>student_id = ''S2'', name = ''Bob'',
          borrowed_books = [''B2 (Due: 2024-01-10)'', ''B3 (Due: 2024-01-11)'',
                            ''B4 (Due: 2024-01-12)'']\<rparr>) = [''B2 (Due: 2024-01-10)'']"
    by simp
  have p: "calculate_penalty (butlast ''2024-01-10)'') ''2024-01-20'' = Inr 8"
    using penalty_10_20 by simp
  show ?thesis
    using return_book_success_eq[OF demo_B2 demo_S2 f split_B2 p, of jan1]
    by (simp add: str_int_8)
qed

lemma demo_return_ok: "return_ok (return_book demo_library ''B2'' ''S2'' ''2024-01-20'' jan1)"
  by (simp add: demo_return return_ok_def)

lemma demo_issue_return:
  "return_book (issued demo_library ''B1'' ''S1'' jan1 \<lparr>year = 2024, month = 1, day = 15\<rparr>)
      ''B1'' ''S1'' ''2024-01-20'' jan1 =
     Inr (''Book returned successfully. Penalty: $3'',
          returned (issued demo_library ''B1'' ''S1'' jan1 \<lparr>year = 2024, month = 1, day = 15\<rparr>)
            ''B1'' ''S1'' ''B1 (Due: 2024-01-15)'' jan1)"
proof -
  let ?s1 = "issued demo_library ''B1'' ''S1'' jan1 \<lparr>year = 2024, month = 1, day = 15\<rparr>"
  have b: "find (\<lambda>b. book_id b = ''B1'') (books ?s1) =
     Some \<lparr>book_id = ''B1'', title = ''Dune'', author = ''Herbert'', available_copies = 0\<rparr>"
    by (simp add: issued_fields demo_library_def)
  have s: "find (\<lambda>st. student_id st = ''S1'') (students ?s1) =
     Some \<lparr>student_id = ''S1'', name = ''Ann'', borrowed_books = [''B1 (Due: 2024-01-15)'']\<rparr>"
    by (simp add: issued_fields demo_library_def jan15_text)
  have f: "filter (\<lambda>e. py_in ''B1'' e) (borrowed_books \<lparr>student_id = ''S1'', name = ''Ann'',
       borrowed_books = [''B1 (Due: 2024-01-15)'']\<rparr>) = [''B1 (Due: 2024-01-15)'']"
    by simp
  have p: "calculate_penalty (butlast ''2024-01-15)'') ''2024-01-20'' = Inr 3"
    using penalty_15_20 by simp
  show ?thesis
    using return_book_success_eq[OF b s f split_B1 p, of jan1]
    by (simp add: str_int_3)
qed

lemma demo_issue_return_ok:
  "return_ok (return_book (state_after demo_library (issue_book demo_library ''B1'' ''S1'' jan1))
     ''B1'' ''S1'' ''2024-01-20'' jan1)"
  by (simp add: demo_issue state_after_def demo_issue_return return_ok_def)

text \<open>
  Claim C2 in the small library: \<open>S1\<close> borrows \<open>B1\<close> on 2024-01-01. The row of \<open>B1\<close>
  in \<open>books.csv\<close> has the count 0 afterwards and the row of \<open>S1\<close> in \<open>students.csv\<close>
  has the loan.
\<close>

theorem issue_book_success_witness:
  "valid_date jan1 \<and> year jan1 < 9999
   \<and> find (\<lambda>b. book_id b = ''B1'') (books demo_library) =
       Some \<lparr>book_id = ''B1'', title = ''Dune'', author = ''Herbert'', available_copies = 1\<rparr>
   \<and> find (\<lambda>st. student_id st = ''S1'') (students demo_library) =
       Some \<lparr>student_id = ''S1'', name = ''Ann'', borrowed_books = []\<rparr>
   \<and> (\<exists>s'. issue_book demo_library ''B1'' ''S1'' jan1 =
          Inr (''Book issued successfully. Due date: 2024-01-15'', s')
        \<and> find (\<lambda>b. book_id b = ''B1'') (books s') =
            Some \<lparr>book_id = ''B1'', title = ''Dune'', author = ''Herbert'', available_copies = 0\<rparr>
        \<and> find (\<lambda>st. student_id st = ''S1'') (students s') =
            Some \<lparr>student_id = ''S1'', name = ''Ann'',
                  borrowed_books = [''B1 (Due: 2024-01-15)'']\<rparr>
        \<and> logs s' = [\<lparr>transaction_type = ''issue'', log_book_id = ''B1'',
                       log_student_id = ''S1'', log_date = ''2024-01-01''\<rparr>]
        \<and> books_file s' =
            Some [(''B1'', ''Dune'', ''Herbert'', 0), (''B2'', ''Emma'', ''Austen'', 0)]
        \<and> students_file s' =
            Some [(''S1'', ''Ann'', ''B1 (Due: 2024-01-15)''),
                  (''S2'', ''Bob'',
                   ''B2 (Due: 2024-01-10),B3 (Due: 2024-01-11),B4 (Due: 2024-01-12)'')]
        \<and> logs_file s' = Some [\<lparr>transaction_type = ''issue'', log_book_id = ''B1'',
                       log_student_id = ''S1'', log_date = ''2024-01-01''\<rparr>]
        \<and> books (Librarian_init s') = books s')"
proof -
  have y: "year jan1 < 9999" by (simp add: jan1_def)
  have l: "logs demo_library = []" by (simp add: demo_library_def)
  let ?d = "\<lparr>year = 2024, month = 1, day = 15\<rparr>"
  from issue_book_success[OF jan1_valid y demo_B1 demo_S1]
  obtain due s' book_rows student_rows where d: "add_days 14 jan1 = Some due"
    and r: "issue_book demo_library ''B1'' ''S1'' jan1 =
          Inr (''Book issued successfully. Due date: '' @ strftime due, s')"
    and fb: "find (\<lambda>b. book_id b = ''B1'') (books s') =
          Some (\<lparr>book_id = ''B1'', title = ''Dune'', author = ''Herbert'',
                  available_copies = 1\<rparr>\<lparr>available_copies := 1 - 1\<rparr>)"
    and fs: "find (\<lambda>st. student_id st = ''S1'') (students s') =
          Some (\<lparr>student_id = ''S1'', name = ''Ann'', borrowed_books = []\<rparr>
                 \<lparr>borrowed_books := [] @ [''B1'' @ '' (Due: '' @ strftime due @ '')'']\<rparr>)"
    and lg: "logs s' = logs demo_library @ [\<lparr>transaction_type = ''issue'', log_book_id = ''B1'',
                     log_student_id = ''S1'', log_date = strftime jan1\<rparr>]"
    and bf: "books_file s' = Some book_rows"
    and br: "book_rows =
          map (\<lambda>b. (book_id b, title b, author b, available_copies b)) (books s')"
    and sf: "students_file s' = Some student_rows"
    and sr: "student_rows =
          map (\<lambda>st. (student_id st, name st, join '','' (borrowed_books st))) (students s')"
    and lf: "logs_file s' = Some (logs demo_library @ [\<lparr>transaction_type = ''issue'',
               log_book_id = ''B1'', log_student_id = ''S1'', log_date = strftime jan1\<rparr>])"
    and rb: "books (Librarian_init s') = books s'"
    by auto
  have due: "due = ?d" using d jan1_due by simp
  have s': "s' = issued demo_library ''B1'' ''S1'' jan1 ?d"
    using r demo_issue by simp
  have bs: "books s' =
      [\<lparr>book_id = ''B1'', title = ''Dune'', author = ''Herbert'', available_copies = 0\<rparr>,
       \<lparr>book_id = ''B2'', title = ''Emma'', author = ''Austen'', available_copies = 0\<rparr>]"
    unfolding s' by (simp add: issued_fields) (simp add: demo_library_def)
  have sts: "students s' =
      [\<lparr>student_id = ''S1'', name = ''Ann'', borrowed_books = [''B1 (Due: 2024-01-15)'']\<rparr>,
       \<lparr>student_id = ''S2'', name = ''Bob'',
        borrowed_books = [''B2 (Due: 2024-01-10)'', ''B3 (Due: 2024-01-11)'',
                          ''B4 (Due: 2024-01-12)'']\<rparr>]"
    unfolding s' by (simp add: issued_fields jan15_text) (simp add: demo_library_def)
  have bfile: "books_file s' =
      Some [(''B1'', ''Dune'', ''Herbert'', 0), (''B2'', ''Emma'', ''Austen'', 0)]"
    unfolding bf br bs by simp
  have sfile: "students_file s' =
      Some [(''S1'', ''Ann'', ''B1 (Due: 2024-01-15)''),
            (''S2'', ''Bob'',
             ''B2 (Due: 2024-01-10),B3 (Due: 2024-01-11),B4 (Due: 2024-01-12)'')]"
    unfolding sf sr sts by simp
  show ?thesis
    using jan1_valid y demo_B1 demo_S1 r fb fs lg lf bfile sfile rb
    by (simp add: due jan15_text jan1_text l)
qed

text \<open>Claim C3 in the small library: \<open>S2\<close> holds three books and asks for \<open>B1\<close>.\<close>

theorem borrow_limit_invariant_witness:
  "borrow_limit_ok demo_library
   \<and> borrow_limit_ok (run demo_library [Issue ''B1'' ''S1'' jan1])
   \<and> find (\<lambda>b. book_id b = ''B1'') (books demo_library) =
       Some \<lparr>book_id = ''B1'', title = ''Dune'', author = ''Herbert'', available_copies = 1\<rparr>
   \<and> find (\<lambda>st. student_id st = ''S2'') (students demo_library) =
       Some \<lparr>student_id = ''S2'', name = ''Bob'',
          borrowed_books = [''B2 (Due: 2024-01-10)'', ''B3 (Due: 2024-01-11)'',
                            ''B4 (Due: 2024-01-12)'']\<rparr>
   \<and> issue_book demo_library ''B1'' ''S2'' jan1 =
       Inr (''Student has reached the borrowing limit.'', demo_library)"
proof -
  have i: "borrow_limit_ok demo_library"
    by (simp add: borrow_limit_ok_def demo_library_def)
  show ?thesis
    using i demo_B1 demo_S2
      borrow_limit_invariant[where s = demo_library and ops = "[Issue ''B1'' ''S1'' jan1]"
        and bid = "''B1''" and sid = "''S2''" and now = jan1
        and b = "\<lparr>book_id = ''B1'', title = ''Dune'', author = ''Herbert'', available_copies = 1\<rparr>"
        and st = "\<lparr>student_id = ''S2'', name = ''Bob'',
          borrowed_books = [''B2 (Due: 2024-01-10)'', ''B3 (Due: 2024-01-11)'',
                            ''B4 (Due: 2024-01-12)'']\<rparr>"]
    by simp
qed

text \<open>Claim C5 in the small library: an issue, a return, and an issue with its return.\<close>

theorem copies_round_trip_witness:
  "copies_nonneg demo_library
   \<and> copies_nonneg (run demo_library [Issue ''B1'' ''S1'' jan1])
   \<and> issue_ok (issue_book demo_library ''B1'' ''S1'' jan1)
   \<and> find (\<lambda>b. book_id b = ''B1'')
        (books (state_after demo_library (issue_book demo_library ''B1'' ''S1'' jan1))) =
       Some \<lparr>book_id = ''B1'', title = ''Dune'', author = ''Herbert'', available_copies = 0\<rparr>
   \<and> return_ok (return_book demo_library ''B2'' ''S2'' ''2024-01-20'' jan1)
   \<and> find (\<lambda>b. book_id b = ''B2'')
        (books (state_after demo_library
           (return_book demo_library ''B2'' ''S2'' ''2024-01-20'' jan1))) =
       Some \<lparr>book_id = ''B2'', title = ''Emma'', author = ''Austen'', available_copies = 1\<rparr>
   \<and> return_ok (return_book (state_after demo_library (issue_book demo_library ''B1'' ''S1'' jan1))
        ''B1'' ''S1'' ''2024-01-20'' jan1)
   \<and> books (state_after (state_after demo_library (issue_book demo_library ''B1'' ''S1'' jan1))
        (return_book (state_after demo_library (issue_book demo_library ''B1'' ''S1'' jan1))
           ''B1'' ''S1'' ''2024-01-20'' jan1)) = books demo_library"
proof -
  have i: "copies_nonneg demo_library"
    by (simp add: copies_nonneg_def demo_library_def)
  have b2: "find (\<lambda>b. book_id b = ''B2'') (books demo_library) =
     Some \<lparr>book_id = ''B2'', title = ''Emma'', author = ''Austen'', available_copies = 0\<rparr>"
    by (simp add: demo_library_def)
  note t1 = copies_round_trip[where s = demo_library and ops = "[Issue ''B1'' ''S1'' jan1]"
        and bid = "''B1''" and sid = "''S1''" and now = jan1 and rd = "''2024-01-20''"
        and now' = jan1]
  note t2 = copies_round_trip[where s = demo_library and ops = "[]"
        and bid = "''B2''" and sid = "''S2''" and now = jan1 and rd = "''2024-01-20''"
        and now' = jan1]
  have 1: "copies_nonneg (run demo_library [Issue ''B1'' ''S1'' jan1])"
    using t1 i by blast
  have 2: "find (\<lambda>b. book_id b = ''B1'')
        (books (state_after demo_library (issue_book demo_library ''B1'' ''S1'' jan1))) =
       Some \<lparr>book_id = ''B1'', title = ''Dune'', author = ''Herbert'', available_copies = 0\<rparr>"
    using t1 demo_issue_ok demo_B1 by auto
  have 3: "find (\<lambda>b. book_id b = ''B2'')
        (books (state_after demo_library
           (return_book demo_library ''B2'' ''S2'' ''2024-01-20'' jan1))) =
       Some \<lparr>book_id = ''B2'', title = ''Emma'', author = ''Austen'', available_copies = 1\<rparr>"
    using t2 demo_return_ok b2 by auto
  have 4: "books (state_after (state_after demo_library (issue_book demo_library ''B1'' ''S1'' jan1))
        (return_book (state_after demo_library (issue_book demo_library ''B1'' ''S1'' jan1))
           ''B1'' ''S1'' ''2024-01-20'' jan1)) = books demo_library"
    using t1 demo_issue_ok demo_issue_return_ok by blast
  show ?thesis
    using i 1 2 3 4 demo_issue_ok demo_return_ok demo_issue_return_ok by blast
qed


section \<open>Returns by substring, reloading, and the date of a log entry\<close>

lemma split_B10: "split ''Due: '' ''B10 (Due: 2024-01-15)'' = [''B10 ('', ''2024-01-15)'']"
  by code_simp

lemma return_book_not_borrowed_iff:
  assumes "find (\<lambda>b. book_id b = bid) (books s) = Some b"
    and "find (\<lambda>st. student_id st = sid) (students s) = Some st"
  shows "return_book s bid sid rd now = Inr (''This student did not borrow this book.'', s)
         \<longleftrightarrow> filter (\<lambda>e. py_in bid e) (borrowed_books st) = []"
  using assms
  by (auto simp add: return_book_def Let_def split: list.splits sum.splits)

text \<open>
  Claim C6. The claim: with the book and the student found, \<open>return_book\<close> answers that
  the student did not borrow the book exactly when the student holds no loan for that
  book id, and then changes no count. The code asks instead whether the id occurs
  anywhere in an entry of \<open>borrowed_books\<close> (\<open>return_book_not_borrowed_iff\<close>). In the
  library \<open>substring_library\<close>, which four calls build from the empty one, \<open>S1\<close>
  holds one loan, for \<open>B10\<close>, and none for \<open>B1\<close>; the return of
  \<open>B1\<close> succeeds all the same, removes the loan of \<open>B10\<close> and raises the count of
  \<open>B1\<close> from 0 to 1.
\<close>

theorem return_book_substring_match:
  "run empty_library
     [AddBook ''B1'' ''Dune'' ''Herbert'' ''0'', AddBook ''B10'' ''Emma'' ''Austen'' ''1'',
      AddStudent ''S1'' ''Ann'', Issue ''B10'' ''S1'' jan1] = substring_library
   \<and> filter (\<lambda>e. prefix (''B1'' @ '' (Due: '') e)
      (borrowed_books (hd (students substring_library))) = []
   \<and> return_book substring_library ''B1'' ''S1'' ''2024-01-20'' jan1 =
       Inr (''Book returned successfully. Penalty: $3'',
            returned substring_library ''B1'' ''S1'' ''B10 (Due: 2024-01-15)'' jan1)
   \<and> books (returned substring_library ''B1'' ''S1'' ''B10 (Due: 2024-01-15)'' jan1) =
       [\<lparr>book_id = ''B1'', title = ''Dune'', author = ''Herbert'', available_copies = 1\<rparr>,
        \<lparr>book_id = ''B10'', title = ''Emma'', author = ''Austen'', available_copies = 0\<rparr>]
   \<and> students (returned substring_library ''B1'' ''S1'' ''B10 (Due: 2024-01-15)'' jan1) =
       [\<lparr>student_id = ''S1'', name = ''Ann'', borrowed_books = []\<rparr>]"
proof -
  have b: "find (\<lambda>b. book_id b = ''B1'') (books substring_library) =
     Some \<lparr>book_id = ''B1'', title = ''Dune'', author = ''Herbert'', available_copies = 0\<rparr>"
    by (simp add: substring_library_def)
  have s: "find (\<lambda>st. student_id st = ''S1'') (students substring_library) =
     Some \<lparr>student_id = ''S1'', name = ''Ann'', borrowed_books = [''B10 (Due: 2024-01-15)'']\<rparr>"
    by (simp add: substring_library_def)
  have f: "filter (\<lambda>e. py_in ''B1'' e) (borrowed_books \<lparr>student_id = ''S1'', name = ''Ann'',
       borrowed_books = [''B10 (Due: 2024-01-15)'']\<rparr>) = [''B10 (Due: 2024-01-15)'']"
    by simp
  have p: "calculate_penalty (butlast ''2024-01-15)'') ''2024-01-20'' = Inr 3"
    using penalty_15_20 by simp
  have r: "return_book substring_library ''B1'' ''S1'' ''2024-01-20'' jan1 =
       Inr (''Book returned successfully. Penalty: $3'',
            returned substring_library ''B1'' ''S1'' ''B10 (Due: 2024-01-15)'' jan1)"
    using return_book_success_eq[OF b s f split_B10 p, of jan1]
    by (simp add: str_int_3)
  have n: "filter (\<lambda>e. prefix (''B1'' @ '' (Due: '') e)
      (borrowed_books (hd (students substring_library))) = []"
    by (simp add: substring_library_def)
  have reached: "run empty_library
     [AddBook ''B1'' ''Dune'' ''Herbert'' ''0'', AddBook ''B10'' ''Emma'' ''Austen'' ''1'',
      AddStudent ''S1'' ''Ann'', Issue ''B10'' ''S1'' jan1] = substring_library"
    by code_simp
  have f1: "books (returned substring_library ''B1'' ''S1'' ''B10 (Due: 2024-01-15)'' jan1) =
       [\<lparr>book_id = ''B1'', title = ''Dune'', author = ''Herbert'', available_copies = 1\<rparr>,
        \<lparr>book_id = ''B10'', title = ''Emma'', author = ''Austen'', available_copies = 0\<rparr>]"
    by (simp add: returned_fields) (simp add: substring_library_def)
  have f2: "students (returned substring_library ''B1'' ''S1'' ''B10 (Due: 2024-01-15)'' jan1) =
       [\<lparr>student_id = ''S1'', name = ''Ann'', borrowed_books = []\<rparr>]"
    by (simp add: returned_fields) (simp add: substring_library_def)
  show ?thesis
    using reached n r f1 f2 by (intro conjI)
qed

text \<open>
  Claim C9. The claim: saving the collections and loading them back gives the same
  collections, also for a student with no loans. In the code a student registered in
  the empty library has \<open>borrowed_books = []\<close>, which is saved as the empty string;
  loading reads it with \<open>split(",")\<close>, and the student comes back with one loan entry,
  the empty string.
\<close>

theorem save_load_empty_loans:
  "students (add_student empty_library ''S1'' ''Ann'') =
     [\<lparr>student_id = ''S1'', name = ''Ann'', borrowed_books = []\<rparr>]
   \<and> students_file (add_student empty_library ''S1'' ''Ann'') = Some [(''S1'', ''Ann'', [])]
   \<and> students (Librarian_init (add_student empty_library ''S1'' ''Ann'')) =
     [\<lparr>student_id = ''S1'', name = ''Ann'', borrowed_books = [[]]\<rparr>]"
  by (simp add: add_student_def empty_library_def save_data_def Student_init_def
        Student_to_csv_def Librarian_init_def load_csv_def split_def)

text \<open>
  Claim C7 as it was stated asks for the date of a \<open>return\<close> entry to be the
  \<open>return_date\<close> of the caller. In the small library \<open>S2\<close> returns \<open>B2\<close> on the
  clock date 2024-01-01 with the return date 2024-01-20: the return succeeds and the
  one entry it logs is dated 2024-01-01.
\<close>

theorem return_log_date_counterexample:
  "return_ok (return_book demo_library ''B2'' ''S2'' ''2024-01-20'' jan1)
   \<and> logs (state_after demo_library (return_book demo_library ''B2'' ''S2'' ''2024-01-20'' jan1)) =
       [\<lparr>transaction_type = ''return'', log_book_id = ''B2'', log_student_id = ''S2'',
         log_date = ''2024-01-01''\<rparr>]
   \<and> log_date (last (logs (state_after demo_library
         (return_book demo_library ''B2'' ''S2'' ''2024-01-20'' jan1)))) \<noteq> ''2024-01-20''"
  by (simp add: demo_return return_ok_def state_after_def returned_fields jan1_text)
     (simp add: demo_library_def)

text \<open>Claim C7, amended, in the small library: an issue, a return, and two issues of which one fails.\<close>

theorem audit_log_append_only_witness:
  "issue_ok (issue_book demo_library ''B1'' ''S1'' jan1)
   \<and> logs (state_after demo_library (issue_book demo_library ''B1'' ''S1'' jan1)) =
       [\<lparr>transaction_type = ''issue'', log_book_id = ''B1'', log_student_id = ''S1'',
         log_date = ''2024-01-01''\<rparr>]
   \<and> return_ok (return_book demo_library ''B2'' ''S2'' ''2024-01-20'' jan1)
   \<and> logs (state_after demo_library (return_book demo_library ''B2'' ''S2'' ''2024-01-20'' jan1)) =
       [\<lparr>transaction_type = ''return'', log_book_id = ''B2'', log_student_id = ''S2'',
         log_date = ''2024-01-01''\<rparr>]
   \<and> length (logs (run demo_library [Issue ''B1'' ''S1'' jan1, Issue ''B9'' ''S1'' jan1])) = 1"
proof -
  have l: "logs demo_library = []" by (simp add: demo_library_def)
  note t = audit_log_append_only[where s = demo_library
      and ops = "[Issue ''B1'' ''S1'' jan1, Issue ''B9'' ''S1'' jan1]"
      and bid = "''B1''" and sid = "''S1''" and now = jan1 and rd = "''2024-01-20''"]
  note t2 = audit_log_append_only[where s = demo_library and ops = "[]"
      and bid = "''B2''" and sid = "''S2''" and now = jan1 and rd = "''2024-01-20''"]
  have 1: "logs (state_after demo_library (issue_book demo_library ''B1'' ''S1'' jan1)) =
       [\<lparr>transaction_type = ''issue'', log_book_id = ''B1'', log_student_id = ''S1'',
         log_date = ''2024-01-01''\<rparr>]"
    using t[THEN conjunct2, THEN conjunct2, THEN conjunct1] demo_issue_ok
    by (simp add: l jan1_text)
  have 2: "logs (state_after demo_library
        (return_book demo_library ''B2'' ''S2'' ''2024-01-20'' jan1)) =
       [\<lparr>transaction_type = ''return'', log_book_id = ''B2'', log_student_id = ''S2'',
         log_date = ''2024-01-01''\<rparr>]"
    using t2[THEN conjunct2, THEN conjunct2, THEN conjunct2] demo_return_ok
    by (simp add: l jan1_text)
  have nb: "find (\<lambda>b. book_id b = ''B9'')
      (books (issued demo_library ''B1'' ''S1'' jan1 \<lparr>year = 2024, month = 1, day = 15\<rparr>)) = None"
    by (simp add: issued_fields demo_library_def)
  have n9: "\<not> issue_ok (issue_book
      (issued demo_library ''B1'' ''S1'' jan1 \<lparr>year = 2024, month = 1, day = 15\<rparr>)
      ''B9'' ''S1'' jan1)"
    by (simp add: issue_book_def nb issue_ok_def)
  have sc: "successes demo_library [Issue ''B1'' ''S1'' jan1, Issue ''B9'' ''S1'' jan1] = 1"
    using demo_issue_ok n9 by (simp add: succeeded_def demo_issue state_after_def)
  have 3: "length (logs (run demo_library [Issue ''B1'' ''S1'' jan1, Issue ''B9'' ''S1'' jan1])) = 1"
    using t[THEN conjunct2, THEN conjunct1] by (simp only: l sc) simp
  show ?thesis using 1 2 3 demo_issue_ok demo_return_ok by simp
qed

text \<open>Claim C10 in the small library: \<open>S1\<close> borrows \<open>B1\<close>; \<open>B2\<close> and \<open>S2\<close> stay as they are.\<close>

theorem issue_return_frame_witness:
  "issue_ok (issue_book demo_library ''B1'' ''S1'' jan1)
   \<and> books (state_after demo_library (issue_book demo_library ''B1'' ''S1'' jan1)) ! 1 =
       \<lparr>book_id = ''B2'', title = ''Emma'', author = ''Austen'', available_copies = 0\<rparr>
   \<and> title (books (state_after demo_library (issue_book demo_library ''B1'' ''S1'' jan1)) ! 0) =
       ''Dune''
   \<and> students (state_after demo_library (issue_book demo_library ''B1'' ''S1'' jan1)) ! 1 =
       students demo_library ! 1
   \<and> name (students (state_after demo_library (issue_book demo_library ''B1'' ''S1'' jan1)) ! 0) =
       ''Ann''"
proof -
  let ?s' = "state_after demo_library (issue_book demo_library ''B1'' ''S1'' jan1)"
  have h: "?s' = state_after demo_library (issue_book demo_library ''B1'' ''S1'' jan1)
         \<and> issue_ok (issue_book demo_library ''B1'' ''S1'' jan1)"
    using demo_issue_ok by simp
  from issue_return_frame[where s' = ?s' and s = demo_library and bid = "''B1''"
      and sid = "''S1''" and now = jan1, OF disjI1, OF h]
  have fb: "list_all2 (\<lambda>b b'. book_id b' = book_id b \<and> title b' = title b \<and> author b' = author b
                     \<and> (book_id b \<noteq> ''B1'' \<longrightarrow> b' = b)) (books demo_library) (books ?s')"
    and fs: "list_all2 (\<lambda>st st'. student_id st' = student_id st \<and> name st' = name st
                     \<and> (student_id st \<noteq> ''S1'' \<longrightarrow> st' = st)) (students demo_library) (students ?s')"
    by simp_all
  have lb: "length (books demo_library) = 2" and ls: "length (students demo_library) = 2"
    by (simp_all add: demo_library_def)
  have b1: "books ?s' ! 1 = books demo_library ! 1"
    using list_all2_nthD[OF fb, of 1] lb by (simp add: demo_library_def)
  have b0: "title (books ?s' ! 0) = title (books demo_library ! 0)"
    using list_all2_nthD[OF fb, of 0] lb by simp
  have s1: "students ?s' ! 1 = students demo_library ! 1"
    using list_all2_nthD[OF fs, of 1] ls by (simp add: demo_library_def)
  have s0: "name (students ?s' ! 0) = name (students demo_library ! 0)"
    using list_all2_nthD[OF fs, of 0] ls by simp
  show ?thesis
    using demo_issue_ok b1 b0 s1 s0 by (simp add: demo_library_def)
qed

end
